theory Spec2Isabelle
  imports Complex_Main
begin

section \<open>Python numbers\<close>

text \<open>
  The via stitcher keeps every coordinate and distance as a Python \<^verbatim>\<open>int\<close> (unbounded,
  nanometres) and leaves the integers only where it divides with \<^verbatim>\<open>/\<close>, calls
  \<^verbatim>\<open>math.sqrt\<close> or multiplies by a float. A Python \<^verbatim>\<open>float\<close> is an IEEE-754 binary64
  number; each basic operation returns the exact real result rounded to the nearest
  representable number, ties to the even significand. \<open>binary64\<close> is that rounding on the
  reals (53 significant bits, gradual underflow below \<open>2 powi (-1022)\<close>). The overflow
  threshold \<open>2 ^ 1024\<close>, where Python raises \<^verbatim>\<open>OverflowError\<close>, is not modelled: KiCad
  coordinates are 64-bit, and every float the program forms from them stays far below it.
\<close>

definition round_half_even :: "real \<Rightarrow> int" where
  "round_half_even v =
     (let f = \<lfloor>v\<rfloor>; r = v - of_int f
      in if r < 1 / 2 then f else if 1 / 2 < r then f + 1 else if even f then f else f + 1)"

definition binary64 :: "real \<Rightarrow> real" where
  "binary64 v =
     (if v = 0 then 0
      else let e = max \<lfloor>log 2 \<bar>v\<bar>\<rfloor> (- 1022) - 52
           in of_int (round_half_even (v / 2 powi e)) * 2 powi e)"

text \<open>A Python number is an \<^verbatim>\<open>int\<close> or a \<^verbatim>\<open>float\<close>; mixed arithmetic converts the \<^verbatim>\<open>int\<close>
  operand to \<^verbatim>\<open>float\<close> first, comparisons between the two are exact.\<close>

datatype pynum = PyInt int | PyFloat real

fun num_val :: "pynum \<Rightarrow> real" where
  "num_val (PyInt i) = of_int i"
| "num_val (PyFloat r) = r"

fun to_float :: "pynum \<Rightarrow> real" where
  "to_float (PyInt i) = binary64 (of_int i)"
| "to_float (PyFloat r) = r"

text \<open>\<^verbatim>\<open>a / b\<close> on two ints: the correctly rounded quotient.\<close>

definition int_truediv :: "int \<Rightarrow> int \<Rightarrow> real" where
  "int_truediv a b = binary64 (of_int a / of_int b)"

fun py_mul :: "pynum \<Rightarrow> pynum \<Rightarrow> pynum" where
  "py_mul (PyInt a) (PyInt b) = PyInt (a * b)"
| "py_mul a b = PyFloat (binary64 (to_float a * to_float b))"

fun py_add :: "pynum \<Rightarrow> pynum \<Rightarrow> pynum" where
  "py_add (PyInt a) (PyInt b) = PyInt (a + b)"
| "py_add a b = PyFloat (binary64 (to_float a + to_float b))"

fun py_sub :: "pynum \<Rightarrow> pynum \<Rightarrow> pynum" where
  "py_sub (PyInt a) (PyInt b) = PyInt (a - b)"
| "py_sub a b = PyFloat (binary64 (to_float a - to_float b))"

text \<open>\<^verbatim>\<open>a / b\<close> with a float operand; the callers guard \<open>b\<close> against zero.\<close>

definition py_fdiv :: "pynum \<Rightarrow> pynum \<Rightarrow> real" where
  "py_fdiv a b = binary64 (to_float a / to_float b)"

text \<open>\<^verbatim>\<open>min(a, b)\<close> and \<^verbatim>\<open>max(a, b)\<close> return the first argument unless the second is
  strictly smaller (larger), and keep that argument's type.\<close>

definition py_min :: "pynum \<Rightarrow> pynum \<Rightarrow> pynum" where
  "py_min a b = (if num_val b < num_val a then b else a)"

definition py_max :: "pynum \<Rightarrow> pynum \<Rightarrow> pynum" where
  "py_max a b = (if num_val a < num_val b then b else a)"

text \<open>\<^verbatim>\<open>int(v)\<close> truncates a float toward zero.\<close>

definition trunc :: "real \<Rightarrow> int" where
  "trunc v = (if 0 \<le> v then \<lfloor>v\<rfloor> else \<lceil>v\<rceil>)"

fun py_int :: "pynum \<Rightarrow> int" where
  "py_int (PyInt i) = i"
| "py_int (PyFloat r) = trunc r"

text \<open>\<^verbatim>\<open>math.sqrt(v)\<close>: the argument is converted to float, the root is correctly rounded.\<close>

definition py_sqrt :: "pynum \<Rightarrow> real" where
  "py_sqrt v = binary64 (sqrt (to_float v))"

section \<open>Geometry primitives\<close>

type_synonym point = "int \<times> int"

text \<open>
  \<^verbatim>\<open>point_in_polygon\<close>: the loop runs \<open>i\<close> over \<open>range(n)\<close> with \<open>j\<close> trailing one behind,
  starting at \<open>n - 1\<close>. \<^verbatim>\<open>//\<close> is floor division, as \<open>div\<close> on \<open>int\<close>; the \<^verbatim>\<open>and\<close>
  short-circuits, so the division is only reached with \<open>yi \<noteq> yj\<close>.
\<close>

definition edge_test :: "int \<Rightarrow> int \<Rightarrow> point \<Rightarrow> point \<Rightarrow> bool" where
  "edge_test x y p_i p_j =
     (case p_i of (xi, yi) \<Rightarrow> case p_j of (xj, yj) \<Rightarrow>
        ((yi > y) \<noteq> (yj > y)) \<and> x < (xj - xi) * (y - yi) div (yj - yi) + xi)"

definition pip_step :: "int \<Rightarrow> int \<Rightarrow> point list \<Rightarrow> nat \<Rightarrow> bool \<times> nat \<Rightarrow> bool \<times> nat" where
  "pip_step x y polygon_pts i st =
     (case st of (inside, j) \<Rightarrow>
        (if edge_test x y (polygon_pts ! i) (polygon_pts ! j) then \<not> inside else inside, i))"

definition point_in_polygon :: "int \<Rightarrow> int \<Rightarrow> point list \<Rightarrow> bool" where
  "point_in_polygon x y polygon_pts =
     (if polygon_pts = [] \<or> length polygon_pts < 3 then False
      else let n = length polygon_pts
           in fst (fold (pip_step x y polygon_pts) [0..<n] (False, n - 1)))"

text \<open>
  \<^verbatim>\<open>point_to_segment_distance_sq\<close>. \<open>t\<close> is a float; after the clamp it is the int \<open>0\<close>,
  the int \<open>1\<close> or the float itself, and \<^verbatim>\<open>int(t * dx)\<close> truncates toward zero.
\<close>

definition point_to_segment_distance_sq :: "int \<Rightarrow> int \<Rightarrow> int \<Rightarrow> int \<Rightarrow> int \<Rightarrow> int \<Rightarrow> int" where
  "point_to_segment_distance_sq px py x1 y1 x2 y2 =
     (let dx = x2 - x1; dy = y2 - y1; length_sq = dx * dx + dy * dy
      in if length_sq = 0 then (px - x1)\<^sup>2 + (py - y1)\<^sup>2
         else let t = PyFloat (int_truediv ((px - x1) * dx + (py - y1) * dy) length_sq);
                  t = py_max (PyInt 0) (py_min (PyInt 1) t);
                  closest_x = x1 + py_int (py_mul t (PyInt dx));
                  closest_y = y1 + py_int (py_mul t (PyInt dy))
              in (px - closest_x)\<^sup>2 + (py - closest_y)\<^sup>2)"

text \<open>
  \<^verbatim>\<open>distance_to_polygon_edge\<close> returns a float, \<^verbatim>\<open>float('inf')\<close> for the empty polygon.
  The running minimum starts at infinity and is an int from the first edge on.
\<close>

datatype pydist = Finite real | Infinity

definition polygon_edge_dist_sq :: "int \<Rightarrow> int \<Rightarrow> point list \<Rightarrow> nat \<Rightarrow> int" where
  "polygon_edge_dist_sq x y polygon_pts i =
     (case polygon_pts ! i of (x1, y1) \<Rightarrow>
      case polygon_pts ! ((i + 1) mod length polygon_pts) of (x2, y2) \<Rightarrow>
        point_to_segment_distance_sq x y x1 y1 x2 y2)"

definition distance_to_polygon_edge :: "int \<Rightarrow> int \<Rightarrow> point list \<Rightarrow> pydist" where
  "distance_to_polygon_edge x y polygon_pts =
     (if polygon_pts = [] then Infinity
      else let n = length polygon_pts;
               d0 = polygon_edge_dist_sq x y polygon_pts 0;
               min_dist_sq = fold (\<lambda>i m. min m (polygon_edge_dist_sq x y polygon_pts i)) [1..<n] d0
           in Finite (py_sqrt (PyInt min_dist_sq)))"

text \<open>\<^verbatim>\<open>dist < limit\<close> with an int limit: exact, and infinity is below nothing.\<close>

fun dist_less :: "pydist \<Rightarrow> int \<Rightarrow> bool" where
  "dist_less (Finite d) limit = (d < of_int limit)"
| "dist_less Infinity limit = False"

subsection \<open>The crossing count of section 4.1\<close>

text \<open>
  Stated from the specification: a polygon is an ordered closed sequence of points, edge
  \<open>i\<close> joins point \<open>i\<close> to point \<open>(i + 1) mod n\<close>. An edge is crossed by the horizontal ray
  from \<open>p\<close> towards \<open>+x\<close> when its end points lie on different sides of the line through
  \<open>p\<close> and \<open>p\<close> is strictly left of the point where the edge meets that line. That point
  is a rational number in general.
\<close>

definition spec_polygon_edges :: "point list \<Rightarrow> (point \<times> point) list" where
  "spec_polygon_edges pts = map (\<lambda>i. (pts ! i, pts ! ((i + 1) mod length pts))) [0..<length pts]"

definition spec_edge_abscissa :: "int \<Rightarrow> point \<Rightarrow> point \<Rightarrow> rat" where
  "spec_edge_abscissa y a b =
     of_int (fst a) + of_int ((fst b - fst a) * (y - snd a)) / of_int (snd b - snd a)"

definition spec_ray_crosses :: "int \<Rightarrow> int \<Rightarrow> point \<times> point \<Rightarrow> bool" where
  "spec_ray_crosses x y e =
     (case e of (a, b) \<Rightarrow>
        ((snd a > y) \<noteq> (snd b > y)) \<and> of_int x < spec_edge_abscissa y a b)"

definition spec_crossing_count :: "int \<Rightarrow> int \<Rightarrow> point list \<Rightarrow> nat" where
  "spec_crossing_count x y pts = length (filter (spec_ray_crosses x y) (spec_polygon_edges pts))"

text \<open>
  Two kinds of crossing, told apart by how far from \<open>p\<close> the ray meets the edge: at least
  one grid unit away, or closer than that.
\<close>

definition ray_crosses_clear :: "int \<Rightarrow> int \<Rightarrow> point \<times> point \<Rightarrow> bool" where
  "ray_crosses_clear x y e =
     (case e of (a, b) \<Rightarrow>
        ((snd a > y) \<noteq> (snd b > y)) \<and> of_int (x + 1) \<le> spec_edge_abscissa y a b)"

definition ray_grazes :: "int \<Rightarrow> int \<Rightarrow> point \<times> point \<Rightarrow> bool" where
  "ray_grazes x y e =
     (case e of (a, b) \<Rightarrow>
        ((snd a > y) \<noteq> (snd b > y)) \<and> of_int x < spec_edge_abscissa y a b
        \<and> spec_edge_abscissa y a b < of_int (x + 1))"

definition clear_crossing_count :: "int \<Rightarrow> int \<Rightarrow> point list \<Rightarrow> nat" where
  "clear_crossing_count x y pts = length (filter (ray_crosses_clear x y) (spec_polygon_edges pts))"

text \<open>The loop of \<^verbatim>\<open>point_in_polygon\<close> pairs index \<open>i\<close> with its cyclic predecessor.\<close>

definition pred_idx :: "nat \<Rightarrow> nat \<Rightarrow> nat" where
  "pred_idx n i = (if i = 0 then n - 1 else i - 1)"

section \<open>Board snapshot and clearance validator\<close>

text \<open>
  \<^verbatim>\<open>from_mm\<close> is kipy's conversion of millimetres to KiCad's nanometre unit,
  \<^verbatim>\<open>int(value_mm * 1_000_000)\<close>. The source calls it only on the literals 0.01, 0.127, 0.5,
  1.0, 1.5 and 2.5, whose products are whole floats; the literal is given here in
  micrometres.
\<close>

definition from_mm_um :: "int \<Rightarrow> int" where
  "from_mm_um micrometres = micrometres * 1000"

text \<open>
  \<^verbatim>\<open>BoardData\<close> holds plain tuples:
  tracks \<open>(start_x, start_y, end_x, end_y, width, net_name, layer_name, is_arc, mid_x, mid_y)\<close>,
  pads \<open>(x, y, half_w, half_h, net_name)\<close>, vias \<open>(x, y, radius, net_name)\<close>,
  zone polygons \<open>(net_name, polygon_pts)\<close>.
\<close>

type_synonym track_tuple = "int \<times> int \<times> int \<times> int \<times> int \<times> string \<times> string \<times> bool \<times> int \<times> int"
type_synonym pad_tuple = "int \<times> int \<times> int \<times> int \<times> string"
type_synonym via_tuple = "int \<times> int \<times> int \<times> string"

record board_data =
  bd_tracks :: "track_tuple list"
  bd_pads :: "pad_tuple list"
  bd_vias :: "via_tuple list"
  zone_polygons :: "(string \<times> point list) list"
  board_outline :: "point list"
  copper_layers :: "string set"

text \<open>\<^verbatim>\<open>'UNKNOWN' in layer_name\<close>: the substring test on strings.\<close>

fun is_prefix :: "string \<Rightarrow> string \<Rightarrow> bool" where
  "is_prefix [] s = True"
| "is_prefix (c # cs) [] = False"
| "is_prefix (c # cs) (d # ds) = (c = d \<and> is_prefix cs ds)"

fun str_contains :: "string \<Rightarrow> string \<Rightarrow> bool" where
  "str_contains sub [] = (sub = [])"
| "str_contains sub (c # cs) = (is_prefix sub (c # cs) \<or> str_contains sub cs)"

text \<open>
  Each obstacle loop of \<^verbatim>\<open>check_position_parallel\<close> returns from the function at the
  first violation; the loops are given one by one, with \<open>Some reason\<close> for that return and
  \<open>None\<close> for a loop that runs to its end.
\<close>

fun check_pads :: "int \<Rightarrow> int \<Rightarrow> int \<Rightarrow> string set \<Rightarrow> int \<Rightarrow> pad_tuple list \<Rightarrow> string option" where
  "check_pads x y via_radius target_nets clearance [] = None"
| "check_pads x y via_radius target_nets clearance ((pad_x, pad_y, pad_half_w, pad_half_h, pad_net) # rest) =
     (let dx_abs = \<bar>x - pad_x\<bar>;
          dy_abs = \<bar>y - pad_y\<bar>;
          max_check_dist = via_radius + clearance + pad_half_w + pad_half_h
      in if dx_abs > max_check_dist \<or> dy_abs > max_check_dist
         then check_pads x y via_radius target_nets clearance rest
         else let is_mounting_hole = (pad_half_w > from_mm_um 2500 \<or> pad_half_h > from_mm_um 2500);
                  req_clearance = (if pad_net \<in> target_nets \<and> \<not> is_mounting_hole
                                   then clearance div 2 else clearance)
              in if dx_abs < via_radius + pad_half_w + req_clearance
                    \<and> dy_abs < via_radius + pad_half_h + req_clearance
                 then Some ''pad''
                 else check_pads x y via_radius target_nets clearance rest)"

fun check_vias :: "int \<Rightarrow> int \<Rightarrow> int \<Rightarrow> string set \<Rightarrow> int \<Rightarrow> int \<Rightarrow> via_tuple list \<Rightarrow> string option" where
  "check_vias x y via_radius target_nets clearance same_net_clearance [] = None"
| "check_vias x y via_radius target_nets clearance same_net_clearance
       ((via_x, via_y, existing_radius, via_net) # rest) =
     (let max_check_dist = via_radius + clearance + from_mm_um 1500;
          dx = x - via_x;
          dy = y - via_y
      in if \<bar>dx\<bar> > max_check_dist \<or> \<bar>dy\<bar> > max_check_dist
         then check_vias x y via_radius target_nets clearance same_net_clearance rest
         else let min_dist = via_radius + existing_radius
                    + (if via_net \<in> target_nets then same_net_clearance else clearance)
              in if dx * dx + dy * dy < min_dist * min_dist
                 then Some ''via''
                 else check_vias x y via_radius target_nets clearance same_net_clearance rest)"

fun check_arc_points :: "int \<Rightarrow> int \<Rightarrow> int \<Rightarrow> point list \<Rightarrow> bool" where
  "check_arc_points x y min_dist [] = False"
| "check_arc_points x y min_dist ((px, py) # rest) =
     (let dx = x - px; dy = y - py
      in if dx * dx + dy * dy < min_dist * min_dist then True
         else check_arc_points x y min_dist rest)"

fun check_tracks :: "int \<Rightarrow> int \<Rightarrow> int \<Rightarrow> string set \<Rightarrow> int \<Rightarrow> int \<Rightarrow> string set \<Rightarrow> track_tuple list
    \<Rightarrow> string option" where
  "check_tracks x y via_radius target_nets clearance same_net_clearance layers [] = None"
| "check_tracks x y via_radius target_nets clearance same_net_clearance layers
       ((start_x, start_y, end_x, end_y, width, track_net, layer_name, is_arc, mid_x, mid_y) # rest) =
     (let max_check_dist = via_radius + clearance + from_mm_um 1000;
          continue = check_tracks x y via_radius target_nets clearance same_net_clearance layers rest
      in if layer_name \<notin> layers \<and> \<not> str_contains ''UNKNOWN'' layer_name then continue
         else let min_tx = (if is_arc then min start_x (min mid_x end_x) else min start_x end_x);
                  max_tx = (if is_arc then max start_x (max mid_x end_x) else max start_x end_x);
                  min_ty = (if is_arc then min start_y (min mid_y end_y) else min start_y end_y);
                  max_ty = (if is_arc then max start_y (max mid_y end_y) else max start_y end_y)
              in if x < min_tx - max_check_dist \<or> x > max_tx + max_check_dist then continue
                 else if y < min_ty - max_check_dist \<or> y > max_ty + max_check_dist then continue
                 else let track_width_half = width div 2;
                          req_clearance = (if track_net \<in> target_nets then same_net_clearance else clearance);
                          min_dist = via_radius + track_width_half + req_clearance
                      in if is_arc
                         then (if check_arc_points x y min_dist
                                    [(start_x, start_y), (mid_x, mid_y), (end_x, end_y)]
                               then Some ''arc'' else continue)
                         else (if point_to_segment_distance_sq x y start_x start_y end_x end_y
                                    < min_dist * min_dist
                               then Some ''track'' else continue))"

fun check_rule_areas :: "int \<Rightarrow> int \<Rightarrow> int \<Rightarrow> (string \<times> point list) list \<Rightarrow> string option" where
  "check_rule_areas x y via_radius [] = None"
| "check_rule_areas x y via_radius ((zone_net, zone_poly) # rest) =
     (if zone_net \<noteq> [] then check_rule_areas x y via_radius rest
      else if zone_poly = [] \<or> length zone_poly < 3 then check_rule_areas x y via_radius rest
      else if point_in_polygon x y zone_poly then Some ''rule_area''
      else if dist_less (distance_to_polygon_edge x y zone_poly) via_radius then Some ''rule_area''
      else check_rule_areas x y via_radius rest)"

text \<open>\<^verbatim>\<open>polygon_pts\<close> is \<^verbatim>\<open>None\<close> in trace fencing; \<^verbatim>\<open>None\<close> and the empty list are both
  false in a condition.\<close>

fun truthy_list :: "'a list option \<Rightarrow> bool" where
  "truthy_list None = False"
| "truthy_list (Some xs) = (xs \<noteq> [])"

definition check_position_parallel ::
  "int \<Rightarrow> int \<Rightarrow> int \<Rightarrow> string set \<Rightarrow> int \<Rightarrow> int \<Rightarrow> int \<Rightarrow> board_data \<Rightarrow> bool \<Rightarrow> point list option
    \<Rightarrow> int \<times> int \<times> bool \<times> string" where
  "check_position_parallel x y via_radius target_nets clearance same_net_clearance
       boundary_clearance board_data_dict is_fence_mode polygon_pts =
     (if board_outline board_data_dict \<noteq> []
         \<and> \<not> point_in_polygon x y (board_outline board_data_dict)
      then (x, y, False, ''outside_board'')
      else if board_outline board_data_dict \<noteq> []
         \<and> dist_less (distance_to_polygon_edge x y (board_outline board_data_dict))
              (boundary_clearance + via_radius)
      then (x, y, False, ''board_edge'')
      else if \<not> is_fence_mode \<and> truthy_list polygon_pts
         \<and> dist_less (distance_to_polygon_edge x y (the polygon_pts)) (boundary_clearance + via_radius)
      then (x, y, False, ''zone_edge'')
      else case check_pads x y via_radius target_nets clearance (bd_pads board_data_dict) of
        Some reason \<Rightarrow> (x, y, False, reason)
      | None \<Rightarrow>
      (case check_vias x y via_radius target_nets clearance same_net_clearance (bd_vias board_data_dict) of
        Some reason \<Rightarrow> (x, y, False, reason)
      | None \<Rightarrow>
      (case check_tracks x y via_radius target_nets clearance same_net_clearance
              (copper_layers board_data_dict) (bd_tracks board_data_dict) of
        Some reason \<Rightarrow> (x, y, False, reason)
      | None \<Rightarrow>
      (case check_rule_areas x y via_radius (zone_polygons board_data_dict) of
        Some reason \<Rightarrow> (x, y, False, reason)
      | None \<Rightarrow> (x, y, True, '''')))))"

text \<open>A board with nothing on it and no outline, for the examples.\<close>

definition empty_board :: board_data where
  "empty_board = \<lparr>bd_tracks = [], bd_pads = [], bd_vias = [], zone_polygons = [], board_outline = [],
     copper_layers = {}\<rparr>"

section \<open>Candidate generators\<close>

datatype py_error = ZeroDivisionError | ValueError | TypeError

text \<open>
  A computation of the orchestrator returns a value, raises, or runs forever: \<open>None\<close>
  is the run that never returns, \<open>Some (Inl e)\<close> the exception \<open>e\<close>.
\<close>

type_synonym 'a run = "(py_error + 'a) option"

subsection \<open>Grid\<close>

text \<open>
  \<^verbatim>\<open>random\<close> is the module-level generator of the standard library, state shared by the
  whole process. It is not part of the repository: the generator is taken as an arbitrary
  sequence of raw draws with a read position, and \<^verbatim>\<open>randint(a, b)\<close> reduces the next draw
  into \<open>[a, b]\<close> (it raises \<^verbatim>\<open>ValueError\<close> on an empty range).
\<close>

datatype rng = Rng (rng_draws: "nat \<Rightarrow> nat") (rng_pos: nat)

definition randint :: "int \<Rightarrow> int \<Rightarrow> rng \<Rightarrow> py_error + int \<times> rng" where
  "randint a b g =
     (if b < a then Inl ValueError
      else Inr (a + int (rng_draws g (rng_pos g) mod nat (b - a + 1)), Rng (rng_draws g) (rng_pos g + 1)))"

datatype stitch_mode = FILL | FENCE_ZONE | FENCE_TRACE

datatype via_type = VT_THROUGH | VT_BLIND_BURIED | VT_MICRO

text \<open>\<^verbatim>\<open>BoardLayer\<close> is an integer enumeration of kipy; the value 0 is false in a condition.\<close>

type_synonym board_layer = int

record stitching_config =
  net_names :: "string list"
  via_diameter_nm :: int
  via_drill_nm :: int
  grid_spacing_nm :: int
  stagger_rows :: bool
  clearance_nm :: int
  boundary_clearance_nm :: int
  random_offset :: bool
  random_offset_max_nm :: int
  mode :: stitch_mode
  fence_spacing_nm :: int
  fence_offset_nm :: int
  fence_both_sides :: bool
  selected_only :: bool
  cfg_via_type :: via_type
  start_layer :: "board_layer option"
  end_layer :: "board_layer option"
  board_corner_radius_nm :: int

text \<open>The body of the inner loop of \<^verbatim>\<open>generate_grid_positions\<close>: the jitter.\<close>

definition apply_random_offset :: "stitching_config \<Rightarrow> point \<Rightarrow> rng \<Rightarrow> py_error + point \<times> rng" where
  "apply_random_offset config p g =
     (case p of (x, y) \<Rightarrow>
        if random_offset config
        then let max_offset = random_offset_max_nm config
             in (case randint (- max_offset) max_offset g of
                   Inl e \<Rightarrow> Inl e
                 | Inr (rx, g1) \<Rightarrow>
                     (case randint (- max_offset) max_offset g1 of
                        Inl e \<Rightarrow> Inl e
                      | Inr (ry, g2) \<Rightarrow> Inr ((x + rx, y + ry), g2)))
        else Inr ((x, y), g))"

text \<open>\<^verbatim>\<open>while x <= max_x\<close>: runs forever when the spacing is negative.\<close>

partial_function (option) grid_row_loop ::
  "stitching_config \<Rightarrow> int \<Rightarrow> int \<Rightarrow> int \<Rightarrow> point list \<Rightarrow> rng \<Rightarrow> (point list \<times> rng) run" where
  "grid_row_loop config y max_x x positions g =
     (if x \<le> max_x
      then (case apply_random_offset config (x, y) g of
              Inl e \<Rightarrow> Some (Inl e)
            | Inr (p, g') \<Rightarrow>
                grid_row_loop config y max_x (x + grid_spacing_nm config) (positions @ [p]) g')
      else Some (Inr (positions, g)))"

text \<open>\<^verbatim>\<open>while y <= max_y\<close>, with the row counter.\<close>

partial_function (option) grid_loop ::
  "stitching_config \<Rightarrow> int \<Rightarrow> int \<Rightarrow> int \<Rightarrow> int \<Rightarrow> nat \<Rightarrow> point list \<Rightarrow> rng \<Rightarrow> (point list \<times> rng) run" where
  "grid_loop config start_x max_x max_y y row positions g =
     (if y \<le> max_y
      then let spacing = grid_spacing_nm config;
               row_offset = (if stagger_rows config \<and> row mod 2 = 1 then spacing div 2 else 0);
               x = start_x + row_offset
           in Option.bind (grid_row_loop config y max_x x positions g)
                (\<lambda>r. case r of
                   Inl e \<Rightarrow> Some (Inl e)
                 | Inr (positions', g') \<Rightarrow>
                     grid_loop config start_x max_x max_y (y + spacing) (row + 1) positions' g')
      else Some (Inr (positions, g)))"

definition generate_grid_positions ::
  "int \<Rightarrow> int \<Rightarrow> int \<Rightarrow> int \<Rightarrow> stitching_config \<Rightarrow> rng \<Rightarrow> (point list \<times> rng) run" where
  "generate_grid_positions min_x min_y max_x max_y config g =
     (let spacing = grid_spacing_nm config
      in if spacing = 0 then Some (Inl ZeroDivisionError)
         else let start_x = ((min_x + spacing - 1) div spacing) * spacing;
                  start_y = ((min_y + spacing - 1) div spacing) * spacing
              in grid_loop config start_x max_x max_y start_y 0 [] g)"

text \<open>The lattice of section 4.3: \<open>ny\<close> rows of \<open>nx\<close> points, \<open>s\<close> apart, row by row.\<close>

definition lattice_row :: "int \<Rightarrow> int \<Rightarrow> nat \<Rightarrow> int \<Rightarrow> point list" where
  "lattice_row s start_x nx y = map (\<lambda>i. (start_x + int i * s, y)) [0..<nx]"

definition lattice :: "int \<Rightarrow> int \<Rightarrow> int \<Rightarrow> nat \<Rightarrow> nat \<Rightarrow> point list" where
  "lattice s start_x start_y nx ny =
     concat (map (\<lambda>j. lattice_row s start_x nx (start_y + int j * s)) [0..<ny])"

text \<open>A configuration for the examples: the defaults of \<^verbatim>\<open>StitchingConfig\<close> in nanometres,
  with a grid of 2 nm, no stagger and no jitter.\<close>

definition example_config :: stitching_config where
  "example_config = \<lparr>net_names = [''GND''], via_diameter_nm = 600000, via_drill_nm = 300000,
     grid_spacing_nm = 2, stagger_rows = False, clearance_nm = 200000,
     boundary_clearance_nm = 300000, random_offset = False, random_offset_max_nm = 200000,
     mode = FILL, fence_spacing_nm = 1000000, fence_offset_nm = 500000, fence_both_sides = True,
     selected_only = False, cfg_via_type = VT_THROUGH, start_layer = None, end_layer = None,
     board_corner_radius_nm = 0\<rparr>"

definition example_rng :: rng where
  "example_rng = Rng (\<lambda>n. n) 0"

subsection \<open>Perimeter fence\<close>

text \<open>
  \<^verbatim>\<open>generate_fence_positions\<close>. \<open>length\<close> is a float; \<^verbatim>\<open>length / spacing_nm\<close> raises
  \<^verbatim>\<open>ZeroDivisionError\<close> for a zero spacing (the test \<^verbatim>\<open>length < spacing_nm\<close> is false then).
  \<^verbatim>\<open>range(num_vias)\<close> is empty for a count below one.
\<close>

definition fence_edge_positions :: "point \<Rightarrow> point \<Rightarrow> int \<Rightarrow> py_error + point list" where
  "fence_edge_positions p1 p2 spacing_nm =
     (case p1 of (x1, y1) \<Rightarrow> case p2 of (x2, y2) \<Rightarrow>
        let dx = x2 - x1;
            dy = y2 - y1;
            length = py_sqrt (PyInt (dx * dx + dy * dy))
        in if length < of_int spacing_nm
           then Inr [((x1 + x2) div 2, (y1 + y2) div 2)]
           else if spacing_nm = 0 then Inl ZeroDivisionError
           else let num_vias = trunc (py_fdiv (PyFloat length) (PyInt spacing_nm))
                in Inr (map (\<lambda>j.
                          let t = PyFloat (py_fdiv (py_add (PyInt (int j)) (PyFloat (1 / 2))) (PyInt num_vias));
                              px = py_int (py_add (PyInt x1) (py_mul t (PyInt dx)));
                              py = py_int (py_add (PyInt y1) (py_mul t (PyInt dy)))
                          in (px, py))
                        [0..<nat num_vias]))"

fun fence_edges_loop :: "point list \<Rightarrow> int \<Rightarrow> nat list \<Rightarrow> point list \<Rightarrow> py_error + point list" where
  "fence_edges_loop polygon_pts spacing_nm [] positions = Inr positions"
| "fence_edges_loop polygon_pts spacing_nm (i # rest) positions =
     (case fence_edge_positions (polygon_pts ! i) (polygon_pts ! ((i + 1) mod length polygon_pts))
             spacing_nm of
        Inl e \<Rightarrow> Inl e
      | Inr ps \<Rightarrow> fence_edges_loop polygon_pts spacing_nm rest (positions @ ps))"

definition generate_fence_positions :: "point list \<Rightarrow> int \<Rightarrow> py_error + point list" where
  "generate_fence_positions polygon_pts spacing_nm =
     (if polygon_pts = [] \<or> length polygon_pts < 2 then Inr []
      else fence_edges_loop polygon_pts spacing_nm [0..<length polygon_pts] [])"

subsection \<open>Track chainer\<close>

text \<open>
  The selected tracks are kipy objects. For an arc the sample points come from kipy's
  \<^verbatim>\<open>center()\<close>, \<^verbatim>\<open>radius()\<close>, \<^verbatim>\<open>start_angle()\<close>, \<^verbatim>\<open>angle()\<close> and the sine and cosine of
  the C library, none of them part of the repository: an arc carries what they yield,
  whether a centre with a positive radius exists, the value of
  \<^verbatim>\<open>int(radius * arc_angle / from_mm(0.5))\<close>, and the point computed for sample \<open>i\<close> of
  \<open>num_samples\<close>.
\<close>

record arc_geometry =
  arc_has_center :: bool
  arc_samples_wanted :: int
  arc_point :: "nat \<Rightarrow> nat \<Rightarrow> point"

datatype kipy_track = Track point point | ArcTrack point point point arc_geometry

fun track_segment :: "kipy_track \<Rightarrow> point list" where
  "track_segment (Track start end) = [start, end]"
| "track_segment (ArcTrack start mid end geo) =
     (if arc_has_center geo
      then let num_samples = nat (max 8 (arc_samples_wanted geo))
           in map (arc_point geo num_samples) [0..<num_samples + 1]
      else [start, end])"

definition points_close :: "point \<Rightarrow> point \<Rightarrow> bool" where
  "points_close p1 p2 = (\<bar>fst p1 - fst p2\<bar> < from_mm_um 10 \<and> \<bar>snd p1 - snd p2\<bar> < from_mm_um 10)"

text \<open>The body of \<^verbatim>\<open>for j, other_seg in enumerate(segments)\<close>, on \<open>(path, used, changed)\<close>.\<close>

definition chain_step :: "point list list \<Rightarrow> nat \<Rightarrow> point list \<times> bool list \<times> bool
    \<Rightarrow> point list \<times> bool list \<times> bool" where
  "chain_step segments j st =
     (case st of (path, used, changed) \<Rightarrow>
        if used ! j then st
        else let other_seg = segments ! j
             in if points_close (last other_seg) (hd path)
                then (butlast other_seg @ path, used[j := True], True)
                else if points_close (hd other_seg) (hd path)
                then (rev (tl other_seg) @ path, used[j := True], True)
                else if points_close (hd other_seg) (last path)
                then (path @ tl other_seg, used[j := True], True)
                else if points_close (last other_seg) (last path)
                then (path @ rev (butlast other_seg), used[j := True], True)
                else st)"

text \<open>\<^verbatim>\<open>while changed\<close>: one pass over all segments, again as long as a pass merged one.\<close>

partial_function (option) chain_grow ::
  "point list list \<Rightarrow> point list \<Rightarrow> bool list \<Rightarrow> (point list \<times> bool list) option" where
  "chain_grow segments path used =
     (case fold (chain_step segments) [0..<length segments] (path, used, False) of
        (path', used', changed) \<Rightarrow>
          if changed then chain_grow segments path' used' else Some (path', used'))"

text \<open>\<^verbatim>\<open>for i, seg in enumerate(segments)\<close>, on \<open>(paths, used)\<close>.\<close>

fun chain_paths_loop :: "point list list \<Rightarrow> nat list \<Rightarrow> point list list \<Rightarrow> bool list
    \<Rightarrow> point list list option" where
  "chain_paths_loop segments [] paths used = Some paths"
| "chain_paths_loop segments (i # rest) paths used =
     (if used ! i then chain_paths_loop segments rest paths used
      else case chain_grow segments (segments ! i) (used[i := True]) of
             None \<Rightarrow> None
           | Some (path, used') \<Rightarrow> chain_paths_loop segments rest (paths @ [path]) used')"

definition chain_tracks_into_paths :: "kipy_track list \<Rightarrow> point list list option" where
  "chain_tracks_into_paths tracks =
     (if tracks = [] then Some []
      else let segments = map track_segment tracks
           in chain_paths_loop segments [0..<length segments] [] (replicate (length segments) False))"

text \<open>
  The same three loops with a ghost component: beside each path the indices of the
  segments it was built from, in the order of their use. The ghost is written and never
  read.
\<close>

definition chain_step_owned :: "point list list \<Rightarrow> nat \<Rightarrow> (point list \<times> nat list) \<times> bool list \<times> bool
    \<Rightarrow> (point list \<times> nat list) \<times> bool list \<times> bool" where
  "chain_step_owned segments j st =
     (case st of ((path, owners), used, changed) \<Rightarrow>
        if used ! j then st
        else let other_seg = segments ! j
             in if points_close (last other_seg) (hd path)
                then ((butlast other_seg @ path, owners @ [j]), used[j := True], True)
                else if points_close (hd other_seg) (hd path)
                then ((rev (tl other_seg) @ path, owners @ [j]), used[j := True], True)
                else if points_close (hd other_seg) (last path)
                then ((path @ tl other_seg, owners @ [j]), used[j := True], True)
                else if points_close (last other_seg) (last path)
                then ((path @ rev (butlast other_seg), owners @ [j]), used[j := True], True)
                else st)"

partial_function (option) chain_grow_owned ::
  "point list list \<Rightarrow> point list \<times> nat list \<Rightarrow> bool list \<Rightarrow> ((point list \<times> nat list) \<times> bool list) option" where
  "chain_grow_owned segments po used =
     (case fold (chain_step_owned segments) [0..<length segments] (po, used, False) of
        (po', used', changed) \<Rightarrow>
          if changed then chain_grow_owned segments po' used' else Some (po', used'))"

fun chain_paths_loop_owned :: "point list list \<Rightarrow> nat list \<Rightarrow> (point list \<times> nat list) list \<Rightarrow> bool list
    \<Rightarrow> (point list \<times> nat list) list option" where
  "chain_paths_loop_owned segments [] paths used = Some paths"
| "chain_paths_loop_owned segments (i # rest) paths used =
     (if used ! i then chain_paths_loop_owned segments rest paths used
      else case chain_grow_owned segments (segments ! i, [i]) (used[i := True]) of
             None \<Rightarrow> None
           | Some (po, used') \<Rightarrow> chain_paths_loop_owned segments rest (paths @ [po]) used')"

definition chain_tracks_owned :: "kipy_track list \<Rightarrow> (point list \<times> nat list) list option" where
  "chain_tracks_owned tracks =
     (if tracks = [] then Some []
      else let segments = map track_segment tracks
           in chain_paths_loop_owned segments [0..<length segments] []
                (replicate (length segments) False))"

subsection \<open>Offset path\<close>

definition py_neg :: "pynum \<Rightarrow> pynum" where
  "py_neg v = (case v of PyInt i \<Rightarrow> PyInt (- i) | PyFloat r \<Rightarrow> PyFloat (- r))"

text \<open>
  The direction \<open>(dx, dy)\<close> at vertex \<open>i\<close> of \<^verbatim>\<open>generate_offset_path\<close>: the adjacent edge
  at the two ends (ints), the sum of the two unit edge directions inside (floats), or a
  single edge where the other has length zero.
\<close>

definition vertex_direction :: "point list \<Rightarrow> nat \<Rightarrow> pynum \<times> pynum" where
  "vertex_direction path i =
     (case path ! i of (x, y) \<Rightarrow>
        if i = 0
        then (PyInt (fst (path ! (i + 1)) - x), PyInt (snd (path ! (i + 1)) - y))
        else if i = length path - 1
        then (PyInt (x - fst (path ! (i - 1))), PyInt (y - snd (path ! (i - 1))))
        else let dx1 = x - fst (path ! (i - 1));
                 dy1 = y - snd (path ! (i - 1));
                 dx2 = fst (path ! (i + 1)) - x;
                 dy2 = snd (path ! (i + 1)) - y;
                 len1 = py_sqrt (PyInt (dx1 * dx1 + dy1 * dy1));
                 len2 = py_sqrt (PyInt (dx2 * dx2 + dy2 * dy2))
             in if len1 > 0 \<and> len2 > 0
                then (PyFloat (binary64 (py_fdiv (PyInt dx1) (PyFloat len1)
                                          + py_fdiv (PyInt dx2) (PyFloat len2))),
                      PyFloat (binary64 (py_fdiv (PyInt dy1) (PyFloat len1)
                                          + py_fdiv (PyInt dy2) (PyFloat len2))))
                else if len1 > 0 then (PyInt dx1, PyInt dy1)
                else (PyInt dx2, PyInt dy2))"

text \<open>\<^verbatim>\<open>length = math.sqrt(dx * dx + dy * dy)\<close> at vertex \<open>i\<close>.\<close>

definition direction_length :: "point list \<Rightarrow> nat \<Rightarrow> real" where
  "direction_length path i =
     (case vertex_direction path i of (dx, dy) \<Rightarrow>
        py_sqrt (py_add (py_mul dx dx) (py_mul dy dy)))"

text \<open>One round of the loop: \<open>None\<close> is the \<^verbatim>\<open>continue\<close> at a direction of length zero.\<close>

definition offset_vertex :: "point list \<Rightarrow> int \<Rightarrow> int \<Rightarrow> nat \<Rightarrow> point option" where
  "offset_vertex path offset side i =
     (case path ! i of (x, y) \<Rightarrow>
      case vertex_direction path i of (dx, dy) \<Rightarrow>
        let length = direction_length path i
        in if length = 0 then None
           else let px = py_mul (PyFloat (py_fdiv (py_neg dy) (PyFloat length))) (PyInt side);
                    py = py_mul (PyFloat (py_fdiv dx (PyFloat length))) (PyInt side);
                    ox = py_int (py_add (PyInt x) (py_mul (PyInt offset) px));
                    oy = py_int (py_add (PyInt y) (py_mul (PyInt offset) py))
                in Some (ox, oy))"

definition generate_offset_path :: "point list \<Rightarrow> int \<Rightarrow> int \<Rightarrow> point list" where
  "generate_offset_path path offset side =
     (if length path < 2 then []
      else List.map_filter (offset_vertex path offset side) [0..<length path])"

subsection \<open>Sampling a path\<close>

text \<open>
  \<^verbatim>\<open>v % w\<close> on floats: the exact remainder of the C library's \<^verbatim>\<open>fmod\<close>, moved to the sign
  of \<open>w\<close>; \<^verbatim>\<open>ZeroDivisionError\<close> for \<open>w = 0\<close>.
\<close>

definition py_float_mod :: "real \<Rightarrow> real \<Rightarrow> py_error + real" where
  "py_float_mod v w =
     (if w = 0 then Inl ZeroDivisionError
      else let m = v - w * of_int (trunc (v / w))
           in if m \<noteq> 0 \<and> ((w < 0) \<noteq> (m < 0)) then Inr (binary64 (m + w)) else Inr m)"

definition sample_point :: "point \<Rightarrow> int \<Rightarrow> int \<Rightarrow> real \<Rightarrow> pynum \<Rightarrow> point" where
  "sample_point p1 dx dy seg_len pos =
     (case p1 of (x1, y1) \<Rightarrow>
        let t = PyFloat (py_fdiv pos (PyFloat seg_len));
            sx = py_int (py_add (PyInt x1) (py_mul t (PyInt dx)));
            sy = py_int (py_add (PyInt y1) (py_mul t (PyInt dy)))
        in (sx, sy))"

text \<open>\<^verbatim>\<open>while pos <= seg_len\<close>: runs forever when the spacing is zero or negative.\<close>

partial_function (option) sample_walk ::
  "int \<Rightarrow> point \<Rightarrow> int \<Rightarrow> int \<Rightarrow> real \<Rightarrow> pynum \<Rightarrow> point list \<Rightarrow> point list option" where
  "sample_walk spacing p1 dx dy seg_len pos samples =
     (if num_val pos \<le> seg_len
      then sample_walk spacing p1 dx dy seg_len (py_add pos (PyInt spacing))
             (samples @ [sample_point p1 dx dy seg_len pos])
      else Some samples)"

fun sample_segments_loop :: "point list \<Rightarrow> int \<Rightarrow> nat list \<Rightarrow> point list \<Rightarrow> pynum \<Rightarrow> point list run" where
  "sample_segments_loop path spacing [] samples accumulated_dist = Some (Inr samples)"
| "sample_segments_loop path spacing (i # rest) samples accumulated_dist =
     (case path ! (i - 1) of (x1, y1) \<Rightarrow> case path ! i of (x2, y2) \<Rightarrow>
        let dx = x2 - x1;
            dy = y2 - y1;
            seg_len = py_sqrt (PyInt (dx * dx + dy * dy))
        in if seg_len = 0 then sample_segments_loop path spacing rest samples accumulated_dist
           else let remaining = py_sub (PyInt spacing) accumulated_dist
                in case sample_walk spacing (x1, y1) dx dy seg_len remaining samples of
                     None \<Rightarrow> None
                   | Some samples' \<Rightarrow>
                       (case py_float_mod (to_float (py_add accumulated_dist (PyFloat seg_len)))
                               (to_float (PyInt spacing)) of
                          Inl e \<Rightarrow> Some (Inl e)
                        | Inr acc \<Rightarrow> sample_segments_loop path spacing rest samples' (PyFloat acc)))"

definition sample_path_at_intervals :: "point list \<Rightarrow> int \<Rightarrow> point list run" where
  "sample_path_at_intervals path spacing =
     (if length path < 2 then Some (Inr path)
      else case sample_segments_loop path spacing [1..<length path] [path ! 0] (PyInt 0) of
             None \<Rightarrow> None
           | Some (Inl e) \<Rightarrow> Some (Inl e)
           | Some (Inr samples) \<Rightarrow>
               Some (Inr (if last samples \<noteq> last path then samples @ [last path] else samples)))"

subsection \<open>Fence along the selected tracks\<close>

fun fence_sides_loop :: "point list \<Rightarrow> int \<Rightarrow> int \<Rightarrow> int list \<Rightarrow> point list \<Rightarrow> point list run" where
  "fence_sides_loop path spacing_nm offset_nm [] positions = Some (Inr positions)"
| "fence_sides_loop path spacing_nm offset_nm (side # rest) positions =
     (let offset_path = generate_offset_path path offset_nm side
      in if length offset_path < 2 then fence_sides_loop path spacing_nm offset_nm rest positions
         else case sample_path_at_intervals offset_path spacing_nm of
                None \<Rightarrow> None
              | Some (Inl e) \<Rightarrow> Some (Inl e)
              | Some (Inr sampled) \<Rightarrow>
                  fence_sides_loop path spacing_nm offset_nm rest (positions @ sampled))"

fun fence_paths_loop :: "point list list \<Rightarrow> int \<Rightarrow> int \<Rightarrow> int list \<Rightarrow> point list \<Rightarrow> point list run" where
  "fence_paths_loop [] spacing_nm offset_nm sides positions = Some (Inr positions)"
| "fence_paths_loop (path # rest) spacing_nm offset_nm sides positions =
     (if length path < 2 then fence_paths_loop rest spacing_nm offset_nm sides positions
      else case fence_sides_loop path spacing_nm offset_nm sides positions of
             None \<Rightarrow> None
           | Some (Inl e) \<Rightarrow> Some (Inl e)
           | Some (Inr positions') \<Rightarrow> fence_paths_loop rest spacing_nm offset_nm sides positions')"

definition generate_path_fence_positions :: "kipy_track list \<Rightarrow> int \<Rightarrow> int \<Rightarrow> bool \<Rightarrow> point list run" where
  "generate_path_fence_positions tracks spacing_nm offset_nm both_sides =
     (case chain_tracks_into_paths tracks of
        None \<Rightarrow> None
      | Some paths \<Rightarrow>
          let sides = (if both_sides then [1, - 1] else [1])
          in fence_paths_loop paths spacing_nm offset_nm sides [])"

section \<open>Stitching orchestrator\<close>

text \<open>
  \<^verbatim>\<open>check_positions_batch\<close>: the validator on every position, in order. The log lines and
  the progress callback (every hundredth position) return nothing to the computation and
  are left out, here and below.
\<close>

definition check_positions_batch ::
  "point list \<Rightarrow> int \<Rightarrow> string set \<Rightarrow> int \<Rightarrow> int \<Rightarrow> int \<Rightarrow> board_data \<Rightarrow> bool \<Rightarrow> point list option
    \<Rightarrow> (int \<times> int \<times> bool \<times> string) list" where
  "check_positions_batch positions via_radius target_nets clearance same_net_clearance
       boundary_clearance board_data is_fence_mode polygon_pts =
     (if positions = [] then []
      else map (\<lambda>(x, y). check_position_parallel x y via_radius target_nets clearance
                  same_net_clearance boundary_clearance board_data is_fence_mode polygon_pts)
             positions)"

text \<open>
  \<^verbatim>\<open>rejected_reasons\<close> is a dict from strings to whatever the code stores: a count for a
  rejection reason of the validator, a message for a run that stops early. A dict keeps
  its keys in insertion order.
\<close>

datatype reason_value = Count int | Message string

type_synonym reasons = "(string \<times> reason_value) list"

fun dict_set :: "string \<Rightarrow> reason_value \<Rightarrow> reasons \<Rightarrow> reasons" where
  "dict_set k v [] = [(k, v)]"
| "dict_set k v ((k', v') # rest) = (if k = k' then (k, v) # rest else (k', v') # dict_set k v rest)"

text \<open>\<^verbatim>\<open>d[k] = d.get(k, 0) + 1\<close>; adding one to a message is a \<^verbatim>\<open>TypeError\<close>.\<close>

definition count_rejection :: "string \<Rightarrow> reasons \<Rightarrow> py_error + reasons" where
  "count_rejection k d =
     (case map_of d k of
        None \<Rightarrow> Inr (dict_set k (Count (0 + 1)) d)
      | Some (Count n) \<Rightarrow> Inr (dict_set k (Count (n + 1)) d)
      | Some (Message m) \<Rightarrow> Inl TypeError)"

text \<open>\<^verbatim>\<open>sum(d.values())\<close>: defined on counts only (\<open>None\<close>: the \<^verbatim>\<open>TypeError\<close> of adding a
  string).\<close>

fun sum_values :: "reasons \<Rightarrow> int option" where
  "sum_values [] = Some 0"
| "sum_values ((k, Count n) # rest) = map_option (\<lambda>t. n + t) (sum_values rest)"
| "sum_values ((k, Message m) # rest) = None"

text \<open>A via of kipy, as the orchestrator fills it in; a layer left at \<open>None\<close> keeps the
  default of a fresh \<^verbatim>\<open>Via()\<close>.\<close>

record via_item =
  via_position :: point
  via_net :: string
  via_kind :: via_type
  via_diameter :: int
  via_drill_diameter :: int
  via_start_layer :: "board_layer option"
  via_end_layer :: "board_layer option"

record stitching_result =
  zones_found :: nat
  tracks_found :: nat
  candidates :: nat
  valid :: nat
  rejected :: nat
  rejected_reasons :: reasons
  result_vias :: "via_item list"

definition new_result :: stitching_result where
  "new_result = \<lparr>zones_found = 0, tracks_found = 0, candidates = 0, valid = 0, rejected = 0,
     rejected_reasons = [], result_vias = []\<rparr>"

fun truthy_layer :: "board_layer option \<Rightarrow> bool" where
  "truthy_layer None = False"
| "truthy_layer (Some l) = (l \<noteq> 0)"

definition make_via :: "stitching_config \<Rightarrow> string \<Rightarrow> int \<Rightarrow> int \<Rightarrow> via_item" where
  "make_via config net x y =
     \<lparr>via_position = (x, y), via_net = net, via_kind = cfg_via_type config,
      via_diameter = via_diameter_nm config, via_drill_diameter = via_drill_nm config,
      via_start_layer = (if cfg_via_type config \<noteq> VT_THROUGH \<and> truthy_layer (start_layer config)
                         then start_layer config else None),
      via_end_layer = (if cfg_via_type config \<noteq> VT_THROUGH \<and> truthy_layer (end_layer config)
                       then end_layer config else None)\<rparr>"

text \<open>The loop \<^verbatim>\<open>for x, y, is_valid, rejection_reason in check_results\<close>.\<close>

fun process_results :: "stitching_config \<Rightarrow> string \<Rightarrow> (int \<times> int \<times> bool \<times> string) list
    \<Rightarrow> stitching_result \<Rightarrow> py_error + stitching_result" where
  "process_results config net [] result = Inr result"
| "process_results config net ((x, y, is_valid, rejection_reason) # rest) result =
     (if is_valid
      then process_results config net rest
             (result\<lparr>result_vias := result_vias result @ [make_via config net x y],
                     valid := valid result + 1\<rparr>)
      else case count_rejection rejection_reason (rejected_reasons result) of
             Inl e \<Rightarrow> Inl e
           | Inr d \<Rightarrow> process_results config net rest
                       (result\<lparr>rejected := rejected result + 1, rejected_reasons := d\<rparr>))"

text \<open>
  The live board, as far as the orchestrator reads it: the names of its nets, its zones,
  and the snapshot that \<^verbatim>\<open>extract_board_data\<close> copies out of it for a given corner radius
  (the extraction walks kipy objects and rounds corners with the C library's sine and
  cosine; every claim here is about what happens after it).
\<close>

record zone =
  zone_net :: "string option"
  zone_filled_outlines :: "point list list"
  zone_outline :: "point list"

record kicad_board =
  board_nets :: "string list"
  board_zones :: "zone list"
  board_snapshot :: "int \<Rightarrow> board_data"

definition get_zone_filled_polygons :: "zone \<Rightarrow> point list list" where
  "get_zone_filled_polygons z =
     (let polygons = filter (\<lambda>pts. pts \<noteq> []) (zone_filled_outlines z)
      in if polygons = [] then (if zone_outline z \<noteq> [] then [zone_outline z] else [])
         else polygons)"

definition generate_trace_fencing ::
  "kicad_board \<Rightarrow> stitching_config \<Rightarrow> kipy_track list option \<Rightarrow> stitching_result run" where
  "generate_trace_fencing board config selected_tracks =
     (let result = new_result;
          target_nets = set (net_names config);
          net_objects = filter (\<lambda>name. name \<in> target_nets) (board_nets board)
      in if net_objects = []
         then Some (Inr (result\<lparr>rejected_reasons := dict_set ''no_nets''
                 (Message ''No matching nets found for fence vias'') (rejected_reasons result)\<rparr>))
         else let fence_net = (if net_names config \<noteq> [] \<and> hd (net_names config) \<in> set net_objects
                               then Some (hd (net_names config)) else None)
         in if fence_net = None
         then Some (Inr (result\<lparr>rejected_reasons := dict_set ''no_fence_net''
                 (Message ''No net found for fence vias'') (rejected_reasons result)\<rparr>))
         else if selected_tracks = None \<or> length (the selected_tracks) = 0
         then Some (Inr (result\<lparr>rejected_reasons := dict_set ''no_tracks''
                 (Message ''No tracks selected. Select the traces you want to fence in KiCad first.'')
                 (rejected_reasons result)\<rparr>))
         else let tracks_to_fence = the selected_tracks;
                  result = result\<lparr>tracks_found := length tracks_to_fence\<rparr>;
                  via_radius = via_diameter_nm config div 2;
                  same_net_clearance = from_mm_um 127;
                  board_data = board_snapshot board (board_corner_radius_nm config)
              in case generate_path_fence_positions tracks_to_fence (fence_spacing_nm config)
                        (fence_offset_nm config) (fence_both_sides config) of
                   None \<Rightarrow> None
                 | Some (Inl e) \<Rightarrow> Some (Inl e)
                 | Some (Inr all_positions) \<Rightarrow>
                     let result = result\<lparr>candidates := length all_positions\<rparr>;
                         check_results = check_positions_batch all_positions via_radius target_nets
                           (clearance_nm config) same_net_clearance (boundary_clearance_nm config)
                           board_data True None
                     in Some (process_results config (the fence_net) check_results result))"

text \<open>\<^verbatim>\<open>min(all_x)\<close> and \<^verbatim>\<open>max(all_x)\<close> of a list that is not empty.\<close>

definition list_min :: "int list \<Rightarrow> int" where
  "list_min xs = fold min (tl xs) (hd xs)"

definition list_max :: "int list \<Rightarrow> int" where
  "list_max xs = fold max (tl xs) (hd xs)"

text \<open>The candidates of one zone polygon: the grid points inside it in fill mode, the
  perimeter fence otherwise.\<close>

definition polygon_candidates :: "stitching_config \<Rightarrow> point list \<Rightarrow> rng \<Rightarrow> (point list \<times> rng) run" where
  "polygon_candidates config polygon_pts g =
     (if mode config = FILL
      then let all_x = map fst polygon_pts;
               all_y = map snd polygon_pts;
               min_x = list_min all_x; max_x = list_max all_x;
               min_y = list_min all_y; max_y = list_max all_y
           in (case generate_grid_positions min_x min_y max_x max_y config g of
                 None \<Rightarrow> None
               | Some (Inl e) \<Rightarrow> Some (Inl e)
               | Some (Inr (grid_positions, g')) \<Rightarrow>
                   Some (Inr (filter (\<lambda>(x, y). point_in_polygon x y polygon_pts)
                                grid_positions, g')))
      else (case generate_fence_positions polygon_pts (fence_spacing_nm config) of
              Inl e \<Rightarrow> Some (Inl e)
            | Inr grid_positions \<Rightarrow> Some (Inr (grid_positions, g))))"

text \<open>The body of \<^verbatim>\<open>for polygon_pts in polygons\<close>, on the result and the random
  generator.\<close>

definition stitch_polygon ::
  "stitching_config \<Rightarrow> string \<Rightarrow> string set \<Rightarrow> board_data \<Rightarrow> point list \<Rightarrow> stitching_result \<times> rng
    \<Rightarrow> (stitching_result \<times> rng) run" where
  "stitch_polygon config target_net target_nets board_data polygon_pts st =
     (case st of (result, g) \<Rightarrow>
        if polygon_pts = [] then Some (Inr (result, g))
        else case polygon_candidates config polygon_pts g of
               None \<Rightarrow> None
             | Some (Inl e) \<Rightarrow> Some (Inl e)
             | Some (Inr (grid_positions, g')) \<Rightarrow>
                 let result = result\<lparr>candidates := candidates result + length grid_positions\<rparr>
                 in if grid_positions = [] then Some (Inr (result, g'))
                    else let check_results = check_positions_batch grid_positions
                               (via_diameter_nm config div 2) target_nets (clearance_nm config)
                               (from_mm_um 127) (boundary_clearance_nm config) board_data
                               (mode config = FENCE_ZONE) (Some polygon_pts)
                         in (case process_results config target_net check_results result of
                               Inl e \<Rightarrow> Some (Inl e)
                             | Inr result' \<Rightarrow> Some (Inr (result', g'))))"

fun stitch_polygons ::
  "stitching_config \<Rightarrow> string \<Rightarrow> string set \<Rightarrow> board_data \<Rightarrow> point list list
    \<Rightarrow> stitching_result \<times> rng \<Rightarrow> (stitching_result \<times> rng) run" where
  "stitch_polygons config target_net target_nets board_data [] st = Some (Inr st)"
| "stitch_polygons config target_net target_nets board_data (polygon_pts # rest) st =
     (case stitch_polygon config target_net target_nets board_data polygon_pts st of
        None \<Rightarrow> None
      | Some (Inl e) \<Rightarrow> Some (Inl e)
      | Some (Inr st') \<Rightarrow> stitch_polygons config target_net target_nets board_data rest st')"

text \<open>\<^verbatim>\<open>for zone_idx, zone in enumerate(target_zones)\<close>.\<close>

fun stitch_zones ::
  "stitching_config \<Rightarrow> string list \<Rightarrow> string set \<Rightarrow> board_data \<Rightarrow> zone list
    \<Rightarrow> stitching_result \<times> rng \<Rightarrow> (stitching_result \<times> rng) run" where
  "stitch_zones config net_objects target_nets board_data [] st = Some (Inr st)"
| "stitch_zones config net_objects target_nets board_data (z # rest) st =
     (let zone_net_name = (case zone_net z of Some name \<Rightarrow> name | None \<Rightarrow> [])
      in if zone_net_name \<notin> set net_objects
         then stitch_zones config net_objects target_nets board_data rest st
         else case stitch_polygons config zone_net_name target_nets board_data
                     (get_zone_filled_polygons z) st of
                None \<Rightarrow> None
              | Some (Inl e) \<Rightarrow> Some (Inl e)
              | Some (Inr st') \<Rightarrow> stitch_zones config net_objects target_nets board_data rest st')"

definition generate_via_stitching ::
  "kicad_board \<Rightarrow> stitching_config \<Rightarrow> zone list option \<Rightarrow> kipy_track list option \<Rightarrow> rng
    \<Rightarrow> (stitching_result \<times> rng) run" where
  "generate_via_stitching board config selected_zones selected_tracks g =
     (if mode config = FENCE_TRACE
      then (case generate_trace_fencing board config selected_tracks of
              None \<Rightarrow> None
            | Some (Inl e) \<Rightarrow> Some (Inl e)
            | Some (Inr result) \<Rightarrow> Some (Inr (result, g)))
      else let result = new_result;
               zones = board_zones board;
               target_nets = set (net_names config);
               net_objects = filter (\<lambda>name. name \<in> target_nets) (board_nets board)
           in if net_objects = []
              then Some (Inr (result\<lparr>rejected_reasons := dict_set ''no_nets''
                      (Message ''No matching nets found'') (rejected_reasons result)\<rparr>, g))
              else let in_target = (\<lambda>z. case zone_net z of Some name \<Rightarrow> name \<in> target_nets
                                           | None \<Rightarrow> False);
                       target_zones = (if selected_only config \<and> truthy_list selected_zones
                                       then filter in_target (the selected_zones)
                                       else filter in_target zones);
                       result = result\<lparr>zones_found := length target_zones\<rparr>
                   in if target_zones = []
                      then Some (Inr (result\<lparr>rejected_reasons := dict_set ''no_zones''
                              (Message ''No zones found for target nets'') (rejected_reasons result)\<rparr>, g))
                      else let board_data = board_snapshot board (board_corner_radius_nm config)
                           in stitch_zones config net_objects target_nets board_data target_zones
                                (result, g))"

text \<open>
  Section 7 of the specification, structured failures: a run that stops because no net,
  no zone or no track is there to work on returns a result whose reason map holds one
  message and whose counters are all zero.
\<close>

definition structured_failure :: "stitching_result \<Rightarrow> bool" where
  "structured_failure r =
     (case rejected_reasons r of
        [(k, Message m)] \<Rightarrow>
          k \<in> set [''no_nets'', ''no_fence_net'', ''no_zones'', ''no_tracks'']
          \<and> valid r = 0 \<and> rejected r = 0 \<and> candidates r = 0 \<and> result_vias r = []
      | _ \<Rightarrow> False)"

text \<open>The invariant of section 3 on a result with counted reasons.\<close>

definition counts_consistent :: "stitching_result \<Rightarrow> bool" where
  "counts_consistent r =
     (valid r + rejected r = candidates r \<and> sum_values (rejected_reasons r) = Some (int (rejected r)))"

text \<open>
  Boards for the examples. \<open>bare_board\<close> has no net at all. \<open>triangle_board\<close> has the nets
  GND and SIG, one GND zone filled as a right triangle with legs of 6 mm and 8 mm, and one
  SIG via of 0.6 mm in the middle of the 8 mm leg; \<open>fence_zone_config\<close> fences that zone
  with a spacing of 20 mm, longer than every edge.
\<close>

definition bare_board :: kicad_board where
  "bare_board = \<lparr>board_nets = [], board_zones = [], board_snapshot = (\<lambda>r. empty_board)\<rparr>"

definition triangle_zone :: zone where
  "triangle_zone = \<lparr>zone_net = Some ''GND'',
     zone_filled_outlines = [[(0, 0), (6000000, 0), (0, 8000000)]], zone_outline = []\<rparr>"

definition triangle_board :: kicad_board where
  "triangle_board = \<lparr>board_nets = [''GND'', ''SIG''], board_zones = [triangle_zone],
     board_snapshot = (\<lambda>r. empty_board\<lparr>bd_vias := [(0, 4000000, 300000, ''SIG'')]\<rparr>)\<rparr>"

definition fence_zone_config :: stitching_config where
  "fence_zone_config = example_config\<lparr>mode := FENCE_ZONE, fence_spacing_nm := 20000000\<rparr>"

definition triangle_result :: stitching_result where
  "triangle_result = \<lparr>zones_found = 1, tracks_found = 0, candidates = 3, valid = 2, rejected = 1,
     rejected_reasons = [(''via'', Count 1)],
     result_vias = [make_via fence_zone_config ''GND'' 3000000 0,
                    make_via fence_zone_config ''GND'' 3000000 4000000]\<rparr>"

definition gnd_board :: kicad_board where
  "gnd_board = \<lparr>board_nets = [''GND''], board_zones = [], board_snapshot = (\<lambda>r. empty_board)\<rparr>"

text \<open>The indices flagged in \<open>used\<close>, and what it means for a path to be made of the
  segments listed as its owners: every merge drops the shared joint of the segment it
  adds, so a path has one point more than its segments have edges.\<close>

definition used_set :: "bool list \<Rightarrow> nat set" where
  "used_set used = {j. j < length used \<and> used ! j}"

definition segment_edges :: "point list list \<Rightarrow> nat list \<Rightarrow> nat" where
  "segment_edges segments owners = sum_list (map (\<lambda>j. length (segments ! j) - 1) owners)"

text \<open>Three tracks for the examples: two that join end to end at \<open>(1 mm, 0)\<close>, listed with
  a stranger between them.\<close>

definition example_tracks :: "kipy_track list" where
  "example_tracks = [Track (0, 0) (1000000, 0), Track (5000000, 5000000) (6000000, 5000000),
     Track (2000000, 0) (1000000, 0)]"

text \<open>A triangle with a slanted edge, and the triangle board with a SIG via of 4 mm
  placed 0.8 mm into the zone from the middle of the 8 mm leg.\<close>

definition slim_triangle :: "point list" where
  "slim_triangle = [(0, 0), (5, 0), (0, 2)]"

definition large_via_board :: kicad_board where
  "large_via_board = \<lparr>board_nets = [''GND'', ''SIG''], board_zones = [triangle_zone],
     board_snapshot = (\<lambda>r. empty_board\<lparr>bd_vias := [(800000, 4000000, 2000000, ''SIG'')]\<rparr>)\<rparr>"

section \<open>Verification\<close>

subsection \<open>Point in polygon\<close>

lemma edge_test_clear:
  "edge_test x y b a = ray_crosses_clear x y (a, b)"
proof (cases "snd a = snd b")
  case True
  then show ?thesis
    by (auto simp: edge_test_def ray_crosses_clear_def split: prod.splits)
next
  case False
  obtain xa ya xb yb where ab: "a = (xa, ya)" "b = (xb, yb)" by (cases a, cases b) auto
  from False ab have ne: "ya \<noteq> yb" by simp
  have "(of_int xa :: rat) + of_int ((xb - xa) * (y - ya)) / of_int (yb - ya)
      = of_int ((xa - xb) * (y - yb)) / of_int (ya - yb) + of_int xb"
    using ne by (simp add: field_simps)
  then have fl: "\<lfloor>spec_edge_abscissa y a b\<rfloor> = (xa - xb) * (y - yb) div (ya - yb) + xb"
    unfolding spec_edge_abscissa_def ab fst_conv snd_conv
    by (simp only: floor_add_int [symmetric] floor_divide_of_int_eq)
  have "x < \<lfloor>spec_edge_abscissa y a b\<rfloor> \<longleftrightarrow> of_int (x + 1) \<le> spec_edge_abscissa y a b"
    by (simp only: le_floor_iff [symmetric]) linarith
  with fl show ?thesis
    by (auto simp: edge_test_def ray_crosses_clear_def ab)
qed

lemma pip_fold:
  "k \<le> n \<Longrightarrow> fold (pip_step x y pts) [0..<k] (False, n - 1)
     = (odd (length (filter (\<lambda>i. edge_test x y (pts ! i) (pts ! pred_idx n i)) [0..<k])),
        pred_idx n k)"
proof (induction k)
  case 0
  then show ?case by (simp add: pred_idx_def)
next
  case (Suc k)
  then show ?case by (simp add: pip_step_def pred_idx_def)
qed

lemma crossing_count_reindex:
  assumes "0 < n"
  shows "length (filter (\<lambda>i. P i (pred_idx n i)) [0..<n])
       = length (filter (\<lambda>i. P ((i + 1) mod n) i) [0..<n])"
proof -
  have "card {i. i < n \<and> P i (pred_idx n i)} = card {i. i < n \<and> P ((i + 1) mod n) i}"
  proof (rule bij_betw_same_card [of "pred_idx n"])
    show "bij_betw (pred_idx n) {i. i < n \<and> P i (pred_idx n i)} {i. i < n \<and> P ((i + 1) mod n) i}"
    proof (rule bij_betw_byWitness [where f' = "\<lambda>i. (i + 1) mod n"])
      show "\<forall>a\<in>{i. i < n \<and> P i (pred_idx n i)}. (pred_idx n a + 1) mod n = a"
        using assms by (auto simp: pred_idx_def)
      show "\<forall>a'\<in>{i. i < n \<and> P ((i + 1) mod n) i}. pred_idx n ((a' + 1) mod n) = a'"
        using assms by (auto simp: pred_idx_def mod_Suc)
      show "pred_idx n ` {i. i < n \<and> P i (pred_idx n i)} \<subseteq> {i. i < n \<and> P ((i + 1) mod n) i}"
        using assms by (auto simp: pred_idx_def)
      show "(\<lambda>i. (i + 1) mod n) ` {i. i < n \<and> P ((i + 1) mod n) i} \<subseteq> {i. i < n \<and> P i (pred_idx n i)}"
        using assms by (auto simp: pred_idx_def mod_Suc)
    qed
  qed
  moreover have "length (filter Q [0..<n]) = card {i. i < n \<and> Q i}" for Q
  proof -
    have "card {i. i < n \<and> Q i} = card (set (filter Q [0..<n]))"
      by (rule arg_cong [where f = card]) auto
    also have "\<dots> = length (filter Q [0..<n])"
      by (rule distinct_card) simp
    finally show ?thesis by simp
  qed
  ultimately show ?thesis
    by (simp only:)
qed

lemma point_in_polygon_clear_count:
  "point_in_polygon x y pts = (3 \<le> length pts \<and> odd (clear_crossing_count x y pts))"
proof (cases "length pts < 3")
  case True
  then show ?thesis by (simp add: point_in_polygon_def)
next
  case False
  then have n: "0 < length pts" "pts \<noteq> []" by auto
  have "clear_crossing_count x y pts
      = length (filter (\<lambda>i. edge_test x y (pts ! ((i + 1) mod length pts)) (pts ! i)) [0..<length pts])"
    by (simp add: clear_crossing_count_def spec_polygon_edges_def filter_map comp_def edge_test_clear)
  also have "\<dots> = length (filter (\<lambda>i. edge_test x y (pts ! i) (pts ! pred_idx (length pts) i)) [0..<length pts])"
    using crossing_count_reindex [OF n(1), of "\<lambda>i j. edge_test x y (pts ! i) (pts ! j)"] by simp
  finally show ?thesis
    using False n pip_fold [of "length pts" "length pts" x y pts]
    by (simp add: point_in_polygon_def Let_def del: fold_simps)
qed

lemma spec_ray_crosses_split:
  "spec_ray_crosses x y e \<longleftrightarrow> ray_crosses_clear x y e \<or> ray_grazes x y e"
  by (auto simp: spec_ray_crosses_def ray_crosses_clear_def ray_grazes_def split: prod.splits)

lemma counts_agree_without_grazing:
  assumes "\<forall>e \<in> set (spec_polygon_edges pts). \<not> ray_grazes x y e"
  shows "spec_crossing_count x y pts = clear_crossing_count x y pts"
proof -
  have "filter (spec_ray_crosses x y) (spec_polygon_edges pts)
      = filter (ray_crosses_clear x y) (spec_polygon_edges pts)"
    using assms by (intro filter_cong) (auto simp: spec_ray_crosses_split)
  then show ?thesis by (simp add: spec_crossing_count_def clear_crossing_count_def)
qed

text \<open>
  Claim C8, as amended. \<^verbatim>\<open>point_in_polygon\<close> is false for every polygon with fewer than
  three points. For any other polygon it is the parity of the number of edges that the
  horizontal ray from \<open>p\<close> towards \<open>+x\<close> crosses at least one grid unit away from \<open>p\<close>:
  the floor division compares \<open>x\<close> with the crossing point rounded down. It is the parity
  of the ray-casting crossing count whenever no edge meets the ray closer than one unit
  to \<open>p\<close>; every crossing is of one of the two kinds.
\<close>

theorem point_in_polygon_ray_casting:
  "point_in_polygon x y pts = (3 \<le> length pts \<and> odd (clear_crossing_count x y pts))
   \<and> ((\<forall>e \<in> set (spec_polygon_edges pts). \<not> ray_grazes x y e) \<longrightarrow>
        point_in_polygon x y pts = (3 \<le> length pts \<and> odd (spec_crossing_count x y pts)))
   \<and> (\<forall>e. spec_ray_crosses x y e \<longleftrightarrow> ray_crosses_clear x y e \<or> ray_grazes x y e)"
  using point_in_polygon_clear_count [of x y pts] counts_agree_without_grazing [of pts x y]
    spec_ray_crosses_split [of x y]
  by auto

lemma slim_edges: "spec_polygon_edges slim_triangle
    = [((0, 0), (5, 0)), ((5, 0), (0, 2)), ((0, 2), (0, 0))]"
  by (simp add: spec_polygon_edges_def slim_triangle_def upt_conv_Cons)

theorem point_in_polygon_ray_casting_witness:
  "point_in_polygon 1 1 slim_triangle
   \<and> spec_crossing_count 1 1 slim_triangle = 1
   \<and> clear_crossing_count 1 1 slim_triangle = 1"
proof -
  have c: "spec_crossing_count 1 1 slim_triangle = 1" "clear_crossing_count 1 1 slim_triangle = 1"
    by (simp_all add: spec_crossing_count_def clear_crossing_count_def slim_edges
        spec_ray_crosses_def ray_crosses_clear_def spec_edge_abscissa_def)
  have "\<forall>e \<in> set (spec_polygon_edges slim_triangle). \<not> ray_grazes 1 1 e"
    by (simp add: slim_edges ray_grazes_def spec_edge_abscissa_def)
  with point_in_polygon_ray_casting [of 1 1 slim_triangle] c show ?thesis
    by (simp add: slim_triangle_def)
qed

text \<open>
  The point \<open>(2, 1)\<close> lies strictly inside the triangle \<open>(0, 0)\<close>, \<open>(5, 0)\<close>, \<open>(0, 2)\<close>:
  its ray crosses the long edge at \<open>x = 2.5\<close> and no other edge, one crossing. The code
  computes \<open>(-5) // (-2) = 2\<close> for that edge, finds \<open>2 < 2\<close> false and answers False.
\<close>

theorem point_in_polygon_ray_casting_counterexample:
  "\<not> point_in_polygon 2 1 slim_triangle
   \<and> 3 \<le> length slim_triangle
   \<and> spec_crossing_count 2 1 slim_triangle = 1"
proof -
  have "spec_crossing_count 2 1 slim_triangle = 1"
    by (simp add: spec_crossing_count_def slim_edges spec_ray_crosses_def spec_edge_abscissa_def)
  moreover have "clear_crossing_count 2 1 slim_triangle = 0"
    by (simp add: clear_crossing_count_def slim_edges ray_crosses_clear_def spec_edge_abscissa_def)
  ultimately show ?thesis
    using point_in_polygon_clear_count [of 2 1 slim_triangle] by (simp add: slim_triangle_def)
qed

subsection \<open>The validator\<close>

lemma check_pads_reason: "check_pads x y r tn c ps = Some reason \<Longrightarrow> reason = ''pad''"
  by (induction x y r tn c ps rule: check_pads.induct) (auto simp: Let_def split: if_splits)

lemma check_vias_reason: "check_vias x y r tn c s vs = Some reason \<Longrightarrow> reason = ''via''"
  by (induction x y r tn c s vs rule: check_vias.induct) (auto simp: Let_def split: if_splits)

lemma check_tracks_reason:
  "check_tracks x y r tn c s ls ts = Some reason \<Longrightarrow> reason = ''arc'' \<or> reason = ''track''"
  by (induction x y r tn c s ls ts rule: check_tracks.induct) (auto simp: Let_def split: if_splits)

lemma check_rule_areas_reason: "check_rule_areas x y r zs = Some reason \<Longrightarrow> reason = ''rule_area''"
  by (induction x y r zs rule: check_rule_areas.induct) (auto split: if_splits)

lemma check_position_no_outline:
  assumes "board_outline bd = []"
  shows "check_position_parallel x y r tn c s bc bd fm poly =
     (if \<not> fm \<and> truthy_list poly
         \<and> dist_less (distance_to_polygon_edge x y (the poly)) (bc + r)
      then (x, y, False, ''zone_edge'')
      else case check_pads x y r tn c (bd_pads bd) of
        Some reason \<Rightarrow> (x, y, False, reason)
      | None \<Rightarrow>
      (case check_vias x y r tn c s (bd_vias bd) of
        Some reason \<Rightarrow> (x, y, False, reason)
      | None \<Rightarrow>
      (case check_tracks x y r tn c s (copper_layers bd) (bd_tracks bd) of
        Some reason \<Rightarrow> (x, y, False, reason)
      | None \<Rightarrow>
      (case check_rule_areas x y r (zone_polygons bd) of
        Some reason \<Rightarrow> (x, y, False, reason)
      | None \<Rightarrow> (x, y, True, '''')))))"
  using assms by (simp add: check_position_parallel_def)

text \<open>
  Claim C9. With an empty board outline the validator never answers \<open>outside_board\<close> or
  \<open>board_edge\<close>: both outline checks are skipped. Where the zone-edge check is off as well
  (fence mode, or no zone polygon), the boundary clearance, which only those checks read,
  has no influence on the answer at all.
\<close>

theorem empty_outline_skips_board_checks:
  assumes "board_outline bd = []"
  shows "snd (snd (snd (check_position_parallel x y r tn c s bc bd fm poly)))
           \<notin> {''outside_board'', ''board_edge''}
       \<and> (fm \<or> \<not> truthy_list poly \<longrightarrow>
            check_position_parallel x y r tn c s bc bd fm poly
          = check_position_parallel x y r tn c s bc' bd fm poly)"
proof -
  note reasons = check_pads_reason check_vias_reason check_tracks_reason check_rule_areas_reason
  have "snd (snd (snd (check_position_parallel x y r tn c s bc bd fm poly)))
           \<notin> {''outside_board'', ''board_edge''}"
    unfolding check_position_no_outline [OF assms]
    by (auto split: option.splits dest: reasons)
  moreover have "fm \<or> \<not> truthy_list poly \<longrightarrow>
            check_position_parallel x y r tn c s bc bd fm poly
          = check_position_parallel x y r tn c s bc' bd fm poly"
    unfolding check_position_no_outline [OF assms] by auto
  ultimately show ?thesis by blast
qed

theorem empty_outline_skips_board_checks_witness:
  "snd (snd (snd (check_position_parallel 5 5 300000 {''GND''} 200000 127000 300000
       (empty_board\<lparr>bd_pads := [(0, 0, 500000, 500000, ''SIG'')]\<rparr>) True None))) = ''pad''
   \<and> ''pad'' \<notin> {''outside_board'', ''board_edge''}
   \<and> check_position_parallel 5 5 300000 {''GND''} 200000 127000 300000
       (empty_board\<lparr>bd_pads := [(0, 0, 500000, 500000, ''SIG'')]\<rparr>) True None
     = check_position_parallel 5 5 300000 {''GND''} 200000 127000 0
       (empty_board\<lparr>bd_pads := [(0, 0, 500000, 500000, ''SIG'')]\<rparr>) True None"
proof -
  have "board_outline (empty_board\<lparr>bd_pads := [(0, 0, 500000, 500000, ''SIG'')]\<rparr>) = []"
    by (simp add: empty_board_def)
  from empty_outline_skips_board_checks [OF this, of 5 5 300000 "{''GND''}" 200000 127000 300000
      True None 0]
  show ?thesis
    by (simp add: check_position_parallel_def empty_board_def from_mm_um_def)
qed

lemma check_vias_append:
  "check_vias x y r tn c s (vs1 @ vs2) =
     (case check_vias x y r tn c s vs1 of Some reason \<Rightarrow> Some reason
      | None \<Rightarrow> check_vias x y r tn c s vs2)"
  by (induction x y r tn c s vs1 rule: check_vias.induct) (auto simp: Let_def)

lemma check_vias_far:
  assumes "(r + R + (if net \<in> tn then s else c))\<^sup>2 \<le> (x - vx)\<^sup>2 + (y - vy)\<^sup>2"
  shows "check_vias x y r tn c s ((vx, vy, R, net) # vs) = check_vias x y r tn c s vs"
  using assms by (auto simp: Let_def power2_eq_square)

lemma check_vias_near:
  assumes "(x - vx)\<^sup>2 + (y - vy)\<^sup>2 < (r + R + (if net \<in> tn then s else c))\<^sup>2"
    and "\<bar>x - vx\<bar> \<le> r + c + from_mm_um 1500" and "\<bar>y - vy\<bar> \<le> r + c + from_mm_um 1500"
  shows "check_vias x y r tn c s ((vx, vy, R, net) # vs) = Some ''via''"
  using assms by (auto simp: Let_def power2_eq_square)

lemma accepted_stages:
  "check_position_parallel x y r tn c s bc bd fm poly = (x, y, True, '''') \<Longrightarrow>
     check_vias x y r tn c s (bd_vias bd) = None"
  by (auto simp: check_position_parallel_def split: if_splits option.splits)

lemma check_position_vias_cong:
  assumes "check_vias x y r tn c s vs = check_vias x y r tn c s vs'"
  shows "check_position_parallel x y r tn c s bc (bd\<lparr>bd_vias := vs\<rparr>) fm poly
       = check_position_parallel x y r tn c s bc (bd\<lparr>bd_vias := vs'\<rparr>) fm poly"
  using assms by (simp add: check_position_parallel_def cong: option.case_cong if_cong)

lemma check_position_via_hit:
  assumes "check_position_parallel x y r tn c s bc (bd\<lparr>bd_vias := vs'\<rparr>) fm poly = (x, y, True, '''')"
    and "check_vias x y r tn c s vs = Some ''via''"
  shows "check_position_parallel x y r tn c s bc (bd\<lparr>bd_vias := vs\<rparr>) fm poly = (x, y, False, ''via'')"
  using assms by (auto simp: check_position_parallel_def cong: option.case_cong split: if_splits option.splits)

text \<open>
  Inside the pre-filter window the via loop decides by the distance alone: with all other
  checks passing, a candidate at the required distance \<open>D\<close> or beyond is accepted and a
  closer one is rejected with reason \<open>via\<close>. \<open>D\<close> takes the same-net clearance for a via
  of a target net and the copper clearance otherwise.
\<close>

lemma via_clearance_inside_window:
  assumes others: "check_position_parallel x y r tn c s bc (bd\<lparr>bd_vias := vs1 @ vs2\<rparr>) fm poly
                     = (x, y, True, [])"
    and D: "D = r + R + (if net \<in> tn then s else c)"
  shows "(D\<^sup>2 \<le> (x - vx)\<^sup>2 + (y - vy)\<^sup>2 \<longrightarrow>
            check_position_parallel x y r tn c s bc (bd\<lparr>bd_vias := vs1 @ (vx, vy, R, net) # vs2\<rparr>) fm poly
              = (x, y, True, []))
       \<and> ((x - vx)\<^sup>2 + (y - vy)\<^sup>2 < D\<^sup>2
            \<and> \<bar>x - vx\<bar> \<le> r + c + from_mm_um 1500 \<and> \<bar>y - vy\<bar> \<le> r + c + from_mm_um 1500 \<longrightarrow>
            check_position_parallel x y r tn c s bc (bd\<lparr>bd_vias := vs1 @ (vx, vy, R, net) # vs2\<rparr>) fm poly
              = (x, y, False, ''via''))"
proof (intro conjI impI)
  assume far: "D\<^sup>2 \<le> (x - vx)\<^sup>2 + (y - vy)\<^sup>2"
  have "check_vias x y r tn c s (vs1 @ (vx, vy, R, net) # vs2) = check_vias x y r tn c s (vs1 @ vs2)"
    using far D by (simp only: check_vias_append [of _ _ _ _ _ _ vs1] check_vias_far)
  from check_position_vias_cong [OF this] others
  show "check_position_parallel x y r tn c s bc (bd\<lparr>bd_vias := vs1 @ (vx, vy, R, net) # vs2\<rparr>) fm poly
              = (x, y, True, [])"
    by simp
next
  assume h: "(x - vx)\<^sup>2 + (y - vy)\<^sup>2 < D\<^sup>2
            \<and> \<bar>x - vx\<bar> \<le> r + c + from_mm_um 1500 \<and> \<bar>y - vy\<bar> \<le> r + c + from_mm_um 1500"
  with D have near: "(x - vx)\<^sup>2 + (y - vy)\<^sup>2 < (r + R + (if net \<in> tn then s else c))\<^sup>2"
    by simp
  have "check_vias x y r tn c s (vs1 @ vs2) = None"
    using accepted_stages [OF others] by simp
  then have "check_vias x y r tn c s vs1 = None"
    by (simp add: check_vias_append split: option.splits)
  then have "check_vias x y r tn c s (vs1 @ (vx, vy, R, net) # vs2) = Some ''via''"
    using check_vias_near [OF near] h by (simp add: check_vias_append [of _ _ _ _ _ _ vs1])
  from check_position_via_hit [OF _ this] others
  show "check_position_parallel x y r tn c s bc (bd\<lparr>bd_vias := vs1 @ (vx, vy, R, net) # vs2\<rparr>) fm poly
              = (x, y, False, ''via'')"
    by simp
qed

subsection \<open>Rounding to binary64\<close>

lemma powr_eq_powi: "(2::real) powr of_int k = 2 powi k"
  by (simp add: powr_int power_int_def inverse_eq_divide power_one_over)

lemma round_half_even_of_int: "round_half_even (of_int n) = n"
  by (simp add: round_half_even_def)

lemma binary64_exact:
  assumes m: "\<bar>m\<bar> < 2 ^ 53" and k: "- 1074 \<le> k"
  shows "binary64 (of_int m * 2 powi k) = of_int m * 2 powi k"
proof (cases "m = 0")
  case True
  then show ?thesis by (simp add: binary64_def)
next
  case False
  define v :: real where "v = of_int m * 2 powi k"
  define L where "L = \<lfloor>log 2 \<bar>v\<bar>\<rfloor>"
  define e where "e = max L (- 1022) - 52"
  have vpos: "0 < \<bar>v\<bar>" using False by (simp add: v_def)
  have absv: "\<bar>v\<bar> = of_int \<bar>m\<bar> * 2 powi k"
    by (simp add: v_def abs_mult)
  have "2 powr of_int L \<le> \<bar>v\<bar>"
    using vpos floor_log_eq_powr_iff [of "\<bar>v\<bar>" 2 L] by (simp add: L_def)
  also have "\<bar>v\<bar> < 2 ^ 53 * 2 powi k"
  proof -
    have "(of_int \<bar>m\<bar> :: real) < of_int (2 ^ 53)" using m by (simp only: of_int_less_iff)
    then show ?thesis unfolding absv by simp
  qed
  also have "\<dots> = 2 powr of_int (53 + k)"
    by (simp only: powr_eq_powi) (simp add: power_int_add)
  finally have "L < 53 + k" by simp
  with k have ek: "e \<le> k" by (simp add: e_def)
  have "v / 2 powi e = of_int m * 2 powi (k - e)"
    by (simp add: v_def power_int_diff)
  also have "\<dots> = of_int (m * 2 ^ nat (k - e))"
    using ek by (simp add: power_int_def)
  finally have "round_half_even (v / 2 powi e) = m * 2 ^ nat (k - e)"
    by (simp only: round_half_even_of_int)
  then have "of_int (round_half_even (v / 2 powi e)) * 2 powi e = of_int m * 2 powi (k - e) * 2 powi e"
    using ek by (simp add: power_int_def)
  also have "\<dots> = v"
    by (simp add: v_def power_int_diff)
  finally show ?thesis
    using False unfolding binary64_def Let_def v_def [symmetric] L_def [symmetric] e_def [symmetric]
    by (simp add: v_def)
qed

lemma binary64_of_int: "\<bar>m\<bar> < 2 ^ 53 \<Longrightarrow> binary64 (of_int m) = of_int m"
  using binary64_exact [of m 0] by simp

lemma binary64_halves: "\<bar>m\<bar> < 2 ^ 53 \<Longrightarrow> binary64 (of_int m / 2) = of_int m / 2"
  using binary64_exact [of m "-1"] by (simp add: power_int_minus)

lemma binary64_values:
  "binary64 (1/2) = 1/2" "binary64 3 = 3" "binary64 1 = 1" "binary64 (3/2) = 3/2"
  "binary64 (- 3) = - 3" "binary64 (- 1) = - 1" "binary64 (- (3/2)) = - (3/2)" "binary64 (- (1/2)) = - (1/2)"
  using binary64_halves [of 1] binary64_of_int [of 3] binary64_of_int [of 1] binary64_halves [of 3]
    binary64_of_int [of "-3"] binary64_of_int [of "-1"] binary64_halves [of "-3"] binary64_halves [of "-1"]
  by simp_all

lemma round_half_even_bounds: "\<lfloor>v\<rfloor> \<le> round_half_even v \<and> round_half_even v \<le> \<lfloor>v\<rfloor> + 1"
  by (simp add: round_half_even_def Let_def)

lemma binary64_nonpos:
  assumes "v \<le> 0"
  shows "binary64 v \<le> 0"
proof (cases "v = 0")
  case True
  then show ?thesis by (simp add: binary64_def)
next
  case False
  define e where "e = max \<lfloor>log 2 \<bar>v\<bar>\<rfloor> (- 1022) - 52"
  have "v / 2 powi e < 0"
    using False assms by (simp add: divide_neg_pos)
  then have "\<lfloor>v / 2 powi e\<rfloor> < 0"
    by (simp add: floor_less_iff)
  then have "round_half_even (v / 2 powi e) \<le> 0"
    using round_half_even_bounds [of "v / 2 powi e"] by linarith
  then have "of_int (round_half_even (v / 2 powi e)) * (2::real) powi e \<le> 0"
    by (simp add: mult_le_0_iff)
  then show ?thesis
    using False by (simp add: binary64_def Let_def e_def)
qed

lemma binary64_ge_one:
  assumes "1 \<le> v"
  shows "1 \<le> binary64 v"
proof -
  define L where "L = \<lfloor>log 2 \<bar>v\<bar>\<rfloor>"
  define e where "e = max L (- 1022) - 52"
  have v: "0 < v" "\<bar>v\<bar> = v" using assms by simp_all
  have "0 \<le> log 2 v" using assms by simp
  then have L0: "0 \<le> L" by (simp add: L_def v)
  then have e: "e = L - 52" by (simp add: e_def)
  have Lv: "2 powi L \<le> v"
    using v floor_log_eq_powr_iff [of v 2 L] by (simp add: L_def powr_eq_powi [symmetric])
  have "(2::real) ^ 52 = 2 powi L / 2 powi e"
    by (simp add: e power_int_diff)
  also have "\<dots> \<le> v / 2 powi e"
    using Lv by (simp add: divide_right_mono)
  finally have "(of_int (2 ^ 52) :: real) \<le> v / 2 powi e" by simp
  then have "2 ^ 52 \<le> \<lfloor>v / 2 powi e\<rfloor>"
    by (simp only: le_floor_iff)
  then have "2 ^ 52 \<le> round_half_even (v / 2 powi e)"
    using round_half_even_bounds [of "v / 2 powi e"] by linarith
  then have "(of_int (2 ^ 52) :: real) \<le> of_int (round_half_even (v / 2 powi e))"
    by (simp only: of_int_le_iff)
  then have "(2::real) ^ 52 * 2 powi e \<le> of_int (round_half_even (v / 2 powi e)) * 2 powi e"
    by (simp add: mult_right_mono)
  moreover have "(2::real) ^ 52 * 2 powi e = 2 powi L"
    by (simp add: e power_int_diff)
  moreover have "(1::real) \<le> 2 powi L"
    using L0 by (simp add: power_int_def)
  ultimately have "1 \<le> of_int (round_half_even (v / 2 powi e)) * (2::real) powi e"
    by linarith
  then show ?thesis
    using v by (simp add: binary64_def Let_def e_def L_def)
qed

subsection \<open>Point to segment distance\<close>

lemma clamp_low:
  assumes "t \<le> 0"
  shows "py_max (PyInt 0) (py_min (PyInt 1) (PyFloat t)) = PyInt 0"
  using assms by (simp add: py_max_def py_min_def)

lemma clamp_high:
  assumes "1 \<le> t"
  shows "py_max (PyInt 0) (py_min (PyInt 1) (PyFloat t)) = PyInt 1"
  using assms by (simp add: py_max_def py_min_def)

lemma segment_distance_before_start:
  assumes "(px - x1) * (x2 - x1) + (py - y1) * (y2 - y1) \<le> 0"
  shows "point_to_segment_distance_sq px py x1 y1 x2 y2 = (px - x1)\<^sup>2 + (py - y1)\<^sup>2"
proof (cases "(x2 - x1) * (x2 - x1) + (y2 - y1) * (y2 - y1) = 0")
  case True
  then show ?thesis by (simp add: point_to_segment_distance_sq_def)
next
  case False
  have "0 \<le> (x2 - x1) * (x2 - x1) + (y2 - y1) * (y2 - y1)" by simp
  with False have pos: "0 < (x2 - x1) * (x2 - x1) + (y2 - y1) * (y2 - y1)" by linarith
  have "real_of_int ((px - x1) * (x2 - x1) + (py - y1) * (y2 - y1))
          / real_of_int ((x2 - x1) * (x2 - x1) + (y2 - y1) * (y2 - y1)) \<le> 0"
    using assms pos by (intro divide_nonpos_pos) (simp_all only: of_int_le_0_iff of_int_0_less_iff)
  then have "int_truediv ((px - x1) * (x2 - x1) + (py - y1) * (y2 - y1))
               ((x2 - x1) * (x2 - x1) + (y2 - y1) * (y2 - y1)) \<le> 0"
    unfolding int_truediv_def by (rule binary64_nonpos)
  from clamp_low [OF this] False show ?thesis
    by (simp add: point_to_segment_distance_sq_def Let_def)
qed

lemma segment_distance_past_end:
  assumes "(x2 - x1) * (x2 - x1) + (y2 - y1) * (y2 - y1)
             \<le> (px - x1) * (x2 - x1) + (py - y1) * (y2 - y1)"
  shows "point_to_segment_distance_sq px py x1 y1 x2 y2 = (px - x2)\<^sup>2 + (py - y2)\<^sup>2"
proof (cases "(x2 - x1) * (x2 - x1) + (y2 - y1) * (y2 - y1) = 0")
  case True
  then have "x2 = x1" "y2 = y1"
    by (simp_all add: sum_squares_eq_zero_iff)
  then show ?thesis by (simp add: point_to_segment_distance_sq_def)
next
  case False
  have "0 \<le> (x2 - x1) * (x2 - x1) + (y2 - y1) * (y2 - y1)" by simp
  with False have pos: "0 < (x2 - x1) * (x2 - x1) + (y2 - y1) * (y2 - y1)" by linarith
  have "1 \<le> real_of_int ((px - x1) * (x2 - x1) + (py - y1) * (y2 - y1))
          / real_of_int ((x2 - x1) * (x2 - x1) + (y2 - y1) * (y2 - y1))"
    using assms pos by (simp only: le_divide_eq_1_pos of_int_0_less_iff of_int_le_iff)
  then have "1 \<le> int_truediv ((px - x1) * (x2 - x1) + (py - y1) * (y2 - y1))
               ((x2 - x1) * (x2 - x1) + (y2 - y1) * (y2 - y1))"
    unfolding int_truediv_def by (rule binary64_ge_one)
  from clamp_high [OF this] False show ?thesis
    by (simp add: point_to_segment_distance_sq_def Let_def)
qed

text \<open>
  Claim C4, as amended. For a segment of zero length the function returns exactly the
  squared distance from the point to that end point. The value is the same for both
  orders of the end points whenever the point projects onto the segment's line at or
  beyond one of its ends (projection parameter at most 0 or at least 1): the closest point
  is then that end point in either order.
\<close>

theorem segment_distance_reversal:
  "point_to_segment_distance_sq px py x1 y1 x1 y1 = (px - x1)\<^sup>2 + (py - y1)\<^sup>2
   \<and> ((px - x1) * (x2 - x1) + (py - y1) * (y2 - y1) \<le> 0
        \<or> (x2 - x1) * (x2 - x1) + (y2 - y1) * (y2 - y1)
             \<le> (px - x1) * (x2 - x1) + (py - y1) * (y2 - y1)
      \<longrightarrow> point_to_segment_distance_sq px py x1 y1 x2 y2
          = point_to_segment_distance_sq px py x2 y2 x1 y1)"
proof (intro conjI impI)
  show "point_to_segment_distance_sq px py x1 y1 x1 y1 = (px - x1)\<^sup>2 + (py - y1)\<^sup>2"
    by (simp add: point_to_segment_distance_sq_def)
next
  let ?n = "(px - x1) * (x2 - x1) + (py - y1) * (y2 - y1)"
  let ?l = "(x2 - x1) * (x2 - x1) + (y2 - y1) * (y2 - y1)"
  let ?n' = "(px - x2) * (x1 - x2) + (py - y2) * (y1 - y2)"
  let ?l' = "(x1 - x2) * (x1 - x2) + (y1 - y2) * (y1 - y2)"
  have rev: "?n' = ?l - ?n" "?l' = ?l" by (simp_all add: algebra_simps)
  assume "?n \<le> 0 \<or> ?l \<le> ?n"
  then show "point_to_segment_distance_sq px py x1 y1 x2 y2
          = point_to_segment_distance_sq px py x2 y2 x1 y1"
  proof
    assume h: "?n \<le> 0"
    then have "?l' \<le> ?n'" unfolding rev by simp
    from segment_distance_before_start [OF h] segment_distance_past_end [OF this]
    show ?thesis by simp
  next
    assume h: "?l \<le> ?n"
    then have "?n' \<le> 0" unfolding rev by simp
    from segment_distance_past_end [OF h] segment_distance_before_start [OF this]
    show ?thesis by simp
  qed
qed

theorem segment_distance_reversal_witness:
  "point_to_segment_distance_sq 5 0 0 0 0 0 = 25
   \<and> point_to_segment_distance_sq 5 0 0 0 3 0 = point_to_segment_distance_sq 5 0 3 0 0 0"
  using segment_distance_reversal [of 5 0 0 0 3 0] by simp

text \<open>
  Between the ends the closest point is truncated to integer coordinates, and the
  truncation depends on the direction. Point \<open>(1, 2)\<close> and the segment from \<open>(0, 0)\<close> to
  \<open>(3, 1)\<close>: \<open>t = 5 / 10 = 0.5\<close> both ways; forwards \<open>int(1.5) = 1\<close> and \<open>int(0.5) = 0\<close>
  give the closest point \<open>(1, 0)\<close>, backwards \<open>int(-1.5) = -1\<close> and \<open>int(-0.5) = 0\<close> give
  \<open>(2, 1)\<close>. Every float on the way is exact in binary64.
\<close>

theorem segment_distance_reversal_counterexample:
  "point_to_segment_distance_sq 1 2 0 0 3 1 = 4 \<and> point_to_segment_distance_sq 1 2 3 1 0 0 = 2"
  by (simp add: point_to_segment_distance_sq_def int_truediv_def py_min_def py_max_def
      binary64_values trunc_def ceiling_def)

subsection \<open>Grid generator\<close>

lemma map_upt_Suc_shift: "map f [0..<Suc n] = f 0 # map (\<lambda>i. f (Suc i)) [0..<n]"
  by (simp only: upt_conv_Cons [of 0 "Suc n"] map_Suc_upt [symmetric]) (simp add: comp_def)

lemma steps_unfold:
  fixes s d :: int
  assumes "0 < s" "0 \<le> d"
  shows "nat (d div s + 1) = Suc (nat ((d - s) div s + 1))"
proof -
  have "(d - s) div s = (d + s * (- 1)) div s" by simp
  also have "\<dots> = - 1 + d div s"
    using assms by (subst div_mult_self2) simp_all
  finally have "(d - s) div s = d div s - 1" by simp
  moreover have "0 \<le> d div s"
    using assms by (simp add: pos_imp_zdiv_nonneg_iff)
  ultimately show ?thesis by simp
qed

lemma steps_none:
  fixes s d :: int
  assumes "0 < s" "d < 0"
  shows "nat (d div s + 1) = 0"
proof -
  have "d div s < 0" using assms by (simp add: div_neg_pos_less0)
  then show ?thesis by simp
qed

lemma grid_row_loop_lattice:
  assumes "0 < grid_spacing_nm config" "\<not> random_offset config"
  shows "grid_row_loop config y max_x x positions g =
     Some (Inr (positions @ map (\<lambda>i. (x + int i * grid_spacing_nm config, y))
                   [0..<nat ((max_x - x) div grid_spacing_nm config + 1)], g))"
proof (induction "nat (max_x - x + 1)" arbitrary: x positions rule: less_induct)
  case less
  let ?s = "grid_spacing_nm config"
  show ?case
  proof (cases "x \<le> max_x")
    case False
    then have "nat ((max_x - x) div ?s + 1) = 0"
      using assms(1) by (intro steps_none) auto
    with False show ?thesis
      by (subst grid_row_loop.simps) simp
  next
    case True
    have "nat (max_x - (x + ?s) + 1) < nat (max_x - x + 1)"
      using True assms(1) by linarith
    from less [OF this]
    have IH: "grid_row_loop config y max_x (x + ?s) (positions @ [(x, y)]) g =
       Some (Inr ((positions @ [(x, y)]) @ map (\<lambda>i. (x + ?s + int i * ?s, y))
                   [0..<nat ((max_x - (x + ?s)) div ?s + 1)], g))" .
    have n: "nat ((max_x - x) div ?s + 1) = Suc (nat ((max_x - (x + ?s)) div ?s + 1))"
      using steps_unfold [of ?s "max_x - x"] True assms(1) by (simp add: algebra_simps)
    have row: "map (\<lambda>i. (x + int i * ?s, y)) [0..<nat ((max_x - x) div ?s + 1)]
        = (x, y) # map (\<lambda>i. (x + ?s + int i * ?s, y)) [0..<nat ((max_x - (x + ?s)) div ?s + 1)]"
      unfolding n by (simp only: map_upt_Suc_shift) (simp add: algebra_simps)
    have "grid_row_loop config y max_x x positions g
        = grid_row_loop config y max_x (x + ?s) (positions @ [(x, y)]) g"
      using True assms(2) by (subst grid_row_loop.simps) (simp add: apply_random_offset_def)
    then show ?thesis
      unfolding IH row by simp
  qed
qed

lemma lattice_Suc:
  "lattice s start_x start_y nx (Suc ny) =
     lattice_row s start_x nx start_y @ lattice s start_x (start_y + s) nx ny"
  unfolding lattice_def
  by (simp only: map_upt_Suc_shift) (simp add: algebra_simps)

lemma length_lattice: "length (lattice s start_x start_y nx ny) = nx * ny"
  by (induction ny arbitrary: start_y) (simp_all add: lattice_Suc, simp_all add: lattice_def lattice_row_def)

lemma grid_loop_lattice:
  assumes "0 < grid_spacing_nm config" "\<not> random_offset config" "\<not> stagger_rows config"
  shows "grid_loop config start_x max_x max_y y row positions g =
     Some (Inr (positions @ lattice (grid_spacing_nm config) start_x y
                   (nat ((max_x - start_x) div grid_spacing_nm config + 1))
                   (nat ((max_y - y) div grid_spacing_nm config + 1)), g))"
proof (induction "nat (max_y - y + 1)" arbitrary: y row positions rule: less_induct)
  case less
  let ?s = "grid_spacing_nm config"
  let ?nx = "nat ((max_x - start_x) div ?s + 1)"
  show ?case
  proof (cases "y \<le> max_y")
    case False
    then have "nat ((max_y - y) div ?s + 1) = 0"
      using assms(1) by (intro steps_none) auto
    with False show ?thesis
      by (subst grid_loop.simps) (simp add: lattice_def)
  next
    case True
    have "nat (max_y - (y + ?s) + 1) < nat (max_y - y + 1)"
      using True assms(1) by linarith
    from less [OF this]
    have IH: "grid_loop config start_x max_x max_y (y + ?s) (row + 1)
                 (positions @ lattice_row ?s start_x ?nx y) g =
       Some (Inr ((positions @ lattice_row ?s start_x ?nx y) @ lattice ?s start_x (y + ?s) ?nx
                   (nat ((max_y - (y + ?s)) div ?s + 1)), g))" .
    have n: "nat ((max_y - y) div ?s + 1) = Suc (nat ((max_y - (y + ?s)) div ?s + 1))"
      using steps_unfold [of ?s "max_y - y"] True assms(1) by (simp add: algebra_simps)
    show ?thesis
      using True assms(3) IH
      by (subst grid_loop.simps)
         (simp add: grid_row_loop_lattice [OF assms(1,2)] n lattice_Suc Let_def
            lattice_row_def [symmetric])
  qed
qed

lemma generate_grid_positions_lattice:
  assumes "0 < grid_spacing_nm config" "\<not> random_offset config" "\<not> stagger_rows config"
  shows "generate_grid_positions min_x min_y max_x max_y config g =
     Some (Inr (lattice (grid_spacing_nm config)
                  ((min_x + grid_spacing_nm config - 1) div grid_spacing_nm config * grid_spacing_nm config)
                  ((min_y + grid_spacing_nm config - 1) div grid_spacing_nm config * grid_spacing_nm config)
                  (nat ((max_x - (min_x + grid_spacing_nm config - 1) div grid_spacing_nm config
                           * grid_spacing_nm config) div grid_spacing_nm config + 1))
                  (nat ((max_y - (min_y + grid_spacing_nm config - 1) div grid_spacing_nm config
                           * grid_spacing_nm config) div grid_spacing_nm config + 1)), g))"
  using assms by (simp add: generate_grid_positions_def Let_def grid_loop_lattice)

lemma ceiling_snap:
  fixes s a :: int
  assumes "0 < s"
  shows "s dvd (a + s - 1) div s * s" "a \<le> (a + s - 1) div s * s" "(a + s - 1) div s * s < a + s"
proof -
  show "s dvd (a + s - 1) div s * s" by simp
  have m: "(a + s - 1) div s * s = (a + s - 1) - (a + s - 1) mod s"
    by (simp add: minus_mod_eq_div_mult)
  have "0 \<le> (a + s - 1) mod s" "(a + s - 1) mod s < s"
    using assms by simp_all
  then show "a \<le> (a + s - 1) div s * s" "(a + s - 1) div s * s < a + s"
    unfolding m by linarith+
qed

lemma axis_count_bounds:
  fixes s a b :: int
  assumes "0 < s" "a \<le> b"
  shows "(b - a) div s \<le> (b - (a + s - 1) div s * s) div s + 1"
    and "(b - (a + s - 1) div s * s) div s + 1 \<le> (b - a) div s + 1"
proof -
  let ?k = "(a + s - 1) div s * s"
  have "b - a - s \<le> b - ?k" "b - ?k \<le> b - a"
    using ceiling_snap(2,3) [OF assms(1), of a] by linarith+
  then have "(b - a - s) div s \<le> (b - ?k) div s" "(b - ?k) div s \<le> (b - a) div s"
    using assms(1) by (simp_all add: zdiv_mono1)
  moreover have "(b - a - s) div s = (b - a) div s - 1"
  proof -
    have "(b - a - s) div s = (b - a + s * (- 1)) div s" by simp
    also have "\<dots> = - 1 + (b - a) div s"
      using assms by (subst div_mult_self2) simp_all
    finally show ?thesis by simp
  qed
  ultimately show "(b - a) div s \<le> (b - ?k) div s + 1" "(b - ?k) div s + 1 \<le> (b - a) div s + 1"
    by linarith+
qed

lemma axis_count_aligned:
  fixes s a b :: int
  assumes "0 < s" "s dvd a"
  shows "(b - (a + s - 1) div s * s) div s + 1 = (b - a) div s + 1"
proof -
  obtain k where a: "a = s * k" using assms(2) by (auto simp: dvd_def)
  have "(s * k + (s - 1)) div s = k + (s - 1) div s"
    using assms(1) by (subst div_mult_self4) simp_all
  also have "(s - 1) div s = 0" using assms(1) by (simp add: div_pos_pos_trivial)
  finally have "(a + s - 1) div s * s = a" by (simp add: a algebra_simps)
  then show ?thesis by simp
qed

lemma grid_example_box_3:
  "generate_grid_positions 0 0 3 3 example_config example_rng
     = Some (Inr ([(0, 0), (2, 0), (0, 2), (2, 2)], example_rng))"
proof -
  have "0 < grid_spacing_nm example_config" "\<not> random_offset example_config"
       "\<not> stagger_rows example_config"
    by (simp_all add: example_config_def)
  from generate_grid_positions_lattice [OF this, of 0 0 3 3 example_rng]
  show ?thesis
    by (simp add: example_config_def lattice_def lattice_row_def eval_nat_numeral)
qed

lemma floor_ceiling_div:
  fixes w s :: int
  assumes "0 < s"
  shows "\<lceil>real_of_int w / real_of_int s\<rceil> - 1 \<le> w div s" "w div s \<le> \<lceil>real_of_int w / real_of_int s\<rceil>"
    and "s dvd w \<Longrightarrow> \<lceil>real_of_int w / real_of_int s\<rceil> = w div s"
proof -
  have f: "w div s = \<lfloor>real_of_int w / real_of_int s\<rfloor>"
    by (simp add: floor_divide_of_int_eq)
  show "\<lceil>real_of_int w / real_of_int s\<rceil> - 1 \<le> w div s" "w div s \<le> \<lceil>real_of_int w / real_of_int s\<rceil>"
    unfolding f by linarith+
  assume "s dvd w"
  then obtain k where "w = s * k" by (auto simp: dvd_def)
  then show "\<lceil>real_of_int w / real_of_int s\<rceil> = w div s"
    using assms by simp
qed

text \<open>
  Claim C6, as amended. For a bounding box with \<open>min \<le> max\<close> and a positive spacing
  \<open>s\<close>, with stagger and jitter off, the grid generator returns; it snaps the minimum
  corner up to the next multiple of \<open>s\<close>, and the raw positions are the lattice of \<open>nx\<close>
  by \<open>ny\<close> multiples of \<open>s\<close> inside the box, row by row, where on each axis the count lies
  between \<open>ceil(W/s) - 1\<close> and \<open>ceil(W/s) + 1\<close>; it is \<open>ceil(W/s) + 1\<close> when the minimum
  corner and the extent are multiples of \<open>s\<close>. The random generator is left untouched.
\<close>

theorem grid_positions_count:
  assumes spacing: "0 < s" "s = grid_spacing_nm config"
    and plain: "\<not> random_offset config" "\<not> stagger_rows config"
    and box: "min_x \<le> max_x" "min_y \<le> max_y"
    and start: "start_x = (min_x + s - 1) div s * s" "start_y = (min_y + s - 1) div s * s"
    and count: "nx = nat ((max_x - start_x) div s + 1)" "ny = nat ((max_y - start_y) div s + 1)"
  shows "generate_grid_positions min_x min_y max_x max_y config g
           = Some (Inr (lattice s start_x start_y nx ny, g))
       \<and> length (lattice s start_x start_y nx ny) = nx * ny
       \<and> s dvd start_x \<and> min_x \<le> start_x \<and> start_x < min_x + s
       \<and> s dvd start_y \<and> min_y \<le> start_y \<and> start_y < min_y + s
       \<and> \<lceil>real_of_int (max_x - min_x) / real_of_int s\<rceil> - 1 \<le> int nx
       \<and> int nx \<le> \<lceil>real_of_int (max_x - min_x) / real_of_int s\<rceil> + 1
       \<and> \<lceil>real_of_int (max_y - min_y) / real_of_int s\<rceil> - 1 \<le> int ny
       \<and> int ny \<le> \<lceil>real_of_int (max_y - min_y) / real_of_int s\<rceil> + 1
       \<and> (s dvd min_x \<and> s dvd max_x - min_x
            \<longrightarrow> int nx = \<lceil>real_of_int (max_x - min_x) / real_of_int s\<rceil> + 1)
       \<and> (s dvd min_y \<and> s dvd max_y - min_y
            \<longrightarrow> int ny = \<lceil>real_of_int (max_y - min_y) / real_of_int s\<rceil> + 1)"
proof -
  have gen: "generate_grid_positions min_x min_y max_x max_y config g
           = Some (Inr (lattice s start_x start_y nx ny, g))"
    using generate_grid_positions_lattice [of config min_x min_y max_x max_y g] spacing plain
    by (simp add: start count)
  have len: "length (lattice s start_x start_y nx ny) = nx * ny"
    by (rule length_lattice)
  have snapx: "s dvd start_x \<and> min_x \<le> start_x \<and> start_x < min_x + s"
    using ceiling_snap [OF spacing(1), of min_x] by (simp add: start)
  have snapy: "s dvd start_y \<and> min_y \<le> start_y \<and> start_y < min_y + s"
    using ceiling_snap [OF spacing(1), of min_y] by (simp add: start)
  have w0: "0 \<le> (max_x - min_x) div s" "0 \<le> (max_y - min_y) div s"
    using spacing(1) box by (simp_all add: pos_imp_zdiv_nonneg_iff)
  have nxb: "(max_x - min_x) div s \<le> int nx" "int nx \<le> (max_x - min_x) div s + 1"
    using axis_count_bounds [OF spacing(1) box(1)] w0 by (simp_all add: count start)
  have nyb: "(max_y - min_y) div s \<le> int ny" "int ny \<le> (max_y - min_y) div s + 1"
    using axis_count_bounds [OF spacing(1) box(2)] w0 by (simp_all add: count start)
  have bx: "\<lceil>real_of_int (max_x - min_x) / real_of_int s\<rceil> - 1 \<le> int nx"
           "int nx \<le> \<lceil>real_of_int (max_x - min_x) / real_of_int s\<rceil> + 1"
    using nxb floor_ceiling_div(1,2) [OF spacing(1), of "max_x - min_x"] by linarith+
  have "by": "\<lceil>real_of_int (max_y - min_y) / real_of_int s\<rceil> - 1 \<le> int ny"
           "int ny \<le> \<lceil>real_of_int (max_y - min_y) / real_of_int s\<rceil> + 1"
    using nyb floor_ceiling_div(1,2) [OF spacing(1), of "max_y - min_y"] by linarith+
  have ax: "int nx = \<lceil>real_of_int (max_x - min_x) / real_of_int s\<rceil> + 1"
    if "s dvd min_x \<and> s dvd max_x - min_x"
    using that axis_count_aligned [OF spacing(1), of min_x max_x] w0
      floor_ceiling_div(3) [OF spacing(1), of "max_x - min_x"]
    by (simp add: count start)
  have ay: "int ny = \<lceil>real_of_int (max_y - min_y) / real_of_int s\<rceil> + 1"
    if "s dvd min_y \<and> s dvd max_y - min_y"
    using that axis_count_aligned [OF spacing(1), of min_y max_y] w0
      floor_ceiling_div(3) [OF spacing(1), of "max_y - min_y"]
    by (simp add: count start)
  from gen len snapx snapy bx "by" ax ay show ?thesis by blast
qed

theorem grid_positions_count_witness:
  "generate_grid_positions 0 0 4 4 example_config example_rng
     = Some (Inr (lattice 2 0 0 3 3, example_rng))
   \<and> length (lattice 2 0 0 3 3) = 3 * 3
   \<and> int 3 = \<lceil>real_of_int (4 - 0) / real_of_int 2\<rceil> + 1"
proof -
  have c: "(2::int) = grid_spacing_nm example_config" "\<not> random_offset example_config"
      "\<not> stagger_rows example_config"
    by (simp_all add: example_config_def)
  have n: "(3::nat) = nat ((4 - 0) div 2 + 1)" by simp
  from grid_positions_count [of 2 example_config 0 4 0 4 0 0 3 3 example_rng] c
  show ?thesis by simp
qed

text \<open>
  The count is not \<open>(ceil(W/s) + 1) * (ceil(H/s) + 1)\<close> in general: a box from 0 to 3 with
  spacing 2 holds the multiples 0 and 2 on each axis, four positions, not nine.
\<close>

theorem grid_positions_count_counterexample:
  "generate_grid_positions 0 0 3 3 example_config example_rng
     = Some (Inr ([(0, 0), (2, 0), (0, 2), (2, 2)], example_rng))
   \<and> length [(0, 0), (2, 0), (0, 2), (2, 2) :: point] = 4
   \<and> (\<lceil>real_of_int (3 - 0) / real_of_int 2\<rceil> + 1) * (\<lceil>real_of_int (3 - 0) / real_of_int 2\<rceil> + 1) = 9"
proof -
  have "\<lceil>(3::real) / 2\<rceil> = 2" by (simp add: ceiling_eq_iff)
  then show ?thesis by (simp add: grid_example_box_3)
qed

subsection \<open>Counting through the orchestrator\<close>

lemma length_check_positions_batch:
  "length (check_positions_batch ps r tn c s bc bd fm poly) = length ps"
  by (simp add: check_positions_batch_def)

lemma sum_values_dict_set_new:
  "map_of d k = None \<Longrightarrow> sum_values d = Some t
     \<Longrightarrow> sum_values (dict_set k (Count n) d) = Some (t + n)"
proof (induction d arbitrary: t rule: sum_values.induct)
  case 1
  then show ?case by simp
next
  case (2 k' m rest)
  then show ?case by (auto split: if_splits)
next
  case (3 k' m rest)
  then show ?case by simp
qed

lemma sum_values_dict_set_count:
  "map_of d k = Some (Count m) \<Longrightarrow> sum_values d = Some t
     \<Longrightarrow> sum_values (dict_set k (Count n) d) = Some (t - m + n)"
proof (induction d arbitrary: t rule: sum_values.induct)
  case 1
  then show ?case by simp
next
  case (2 k' m' rest)
  then show ?case by (auto split: if_splits)
next
  case (3 k' m' rest)
  then show ?case by simp
qed

lemma count_rejection_sum:
  assumes "count_rejection k d = Inr d'" "sum_values d = Some t"
  shows "sum_values d' = Some (t + 1)"
proof (cases "map_of d k")
  case None
  with assms show ?thesis
    using sum_values_dict_set_new [of d k t 1] by (auto simp: count_rejection_def)
next
  case (Some v)
  with assms show ?thesis
    using sum_values_dict_set_count [of d k _ t]
    by (cases v) (auto simp: count_rejection_def)
qed

lemma process_results_counts:
  assumes "process_results config net crs r = Inr r'"
  shows "valid r' + rejected r' = valid r + rejected r + length crs
       \<and> candidates r' = candidates r \<and> zones_found r' = zones_found r
       \<and> tracks_found r' = tracks_found r
       \<and> length (result_vias r') = length (result_vias r) + (valid r' - valid r)
       \<and> valid r \<le> valid r'
       \<and> (\<forall>t. sum_values (rejected_reasons r) = Some (int (rejected r) + t)
              \<longrightarrow> sum_values (rejected_reasons r') = Some (int (rejected r') + t))"
  using assms
proof (induction config net crs r rule: process_results.induct)
  case (1 config net result)
  then show ?case by simp
next
  case (2 config net x y is_valid rejection_reason rest result)
  show ?case
  proof (cases is_valid)
    case True
    with 2 show ?thesis by auto
  next
    case False
    with "2.prems" obtain d where d: "count_rejection rejection_reason (rejected_reasons result) = Inr d"
      and run: "process_results config net rest
                  (result\<lparr>rejected := rejected result + 1, rejected_reasons := d\<rparr>) = Inr r'"
      by (auto split: sum.splits)
    note IH = "2.IH"(2) [OF False d run]
    have "sum_values (rejected_reasons r') = Some (int (rejected r') + t)"
      if "sum_values (rejected_reasons result) = Some (int (rejected result) + t)" for t
    proof -
      from count_rejection_sum [OF d that]
      have "sum_values d = Some (int (rejected result + 1) + t)" by simp
      with IH show ?thesis by simp
    qed
    with IH show ?thesis by auto
  qed
qed

lemma process_results_consistent:
  assumes "process_results config net crs r = Inr r'"
    and "valid r + rejected r + length crs = candidates r"
    and "sum_values (rejected_reasons r) = Some (int (rejected r))"
  shows "counts_consistent r'"
  using process_results_counts [OF assms(1)] assms(2,3)
  by (auto simp: counts_consistent_def)

lemma stitch_polygon_consistent:
  assumes "stitch_polygon config net tn bd poly (r, g) = Some (Inr (r', g'))" "counts_consistent r"
  shows "counts_consistent r'"
proof (cases "poly = []")
  case True
  with assms show ?thesis by (simp add: stitch_polygon_def)
next
  case False
  from assms(1) False obtain ps g1 where
    cand: "polygon_candidates config poly g = Some (Inr (ps, g1))"
    by (auto simp: stitch_polygon_def split: option.splits sum.splits)
  show ?thesis
  proof (cases "ps = []")
    case True
    with assms False cand show ?thesis
      by (auto simp: stitch_polygon_def counts_consistent_def)
  next
    case nonempty: False
    from assms(1) False cand nonempty
    have pr: "process_results config net (check_positions_batch ps
                               (via_diameter_nm config div 2) tn (clearance_nm config)
                               (from_mm_um 127) (boundary_clearance_nm config) bd
                               (mode config = FENCE_ZONE) (Some poly))
                           (r\<lparr>candidates := candidates r + length ps\<rparr>) = Inr r'"
      by (auto simp: stitch_polygon_def Let_def split: sum.splits)
    from process_results_consistent [OF pr] assms(2) show ?thesis
      by (simp add: counts_consistent_def length_check_positions_batch)
  qed
qed

lemma stitch_polygons_consistent:
  assumes "stitch_polygons config net tn bd polys (r, g) = Some (Inr (r', g'))" "counts_consistent r"
  shows "counts_consistent r'"
  using assms
proof (induction polys arbitrary: r g)
  case Nil
  then show ?case by simp
next
  case (Cons p polys)
  from Cons.prems(1) obtain r1 g1 where
    one: "stitch_polygon config net tn bd p (r, g) = Some (Inr (r1, g1))"
    and rest: "stitch_polygons config net tn bd polys (r1, g1) = Some (Inr (r', g'))"
    by (auto split: option.splits sum.splits)
  from Cons.IH [OF rest stitch_polygon_consistent [OF one Cons.prems(2)]] show ?case .
qed

lemma stitch_zones_consistent:
  assumes "stitch_zones config nets tn bd zs (r, g) = Some (Inr (r', g'))" "counts_consistent r"
  shows "counts_consistent r'"
  using assms
proof (induction zs arbitrary: r g)
  case Nil
  then show ?case by simp
next
  case (Cons z zs)
  show ?case
  proof (cases "(case zone_net z of Some name \<Rightarrow> name | None \<Rightarrow> []) \<notin> set nets")
    case True
    with Cons show ?thesis by (simp add: Let_def)
  next
    case False
    with Cons.prems(1) obtain r1 g1 where
      one: "stitch_polygons config (case zone_net z of Some name \<Rightarrow> name | None \<Rightarrow> []) tn bd
              (get_zone_filled_polygons z) (r, g) = Some (Inr (r1, g1))"
      and rest: "stitch_zones config nets tn bd zs (r1, g1) = Some (Inr (r', g'))"
      by (auto simp: Let_def split: option.splits sum.splits)
    from Cons.IH [OF rest stitch_polygons_consistent [OF one Cons.prems(2)]] show ?thesis .
  qed
qed

lemma new_result_consistent: "counts_consistent (new_result\<lparr>zones_found := n\<rparr>)"
  "counts_consistent (new_result\<lparr>tracks_found := n, candidates := 0\<rparr>)"
  by (simp_all add: counts_consistent_def new_result_def)

lemma message_result_failure:
  assumes "k \<in> set [''no_nets'', ''no_fence_net'', ''no_zones'', ''no_tracks'']"
  shows "structured_failure (new_result\<lparr>rejected_reasons := dict_set k (Message m) (rejected_reasons new_result)\<rparr>)"
    and "structured_failure (new_result\<lparr>zones_found := n,
           rejected_reasons := dict_set k (Message m) (rejected_reasons (new_result\<lparr>zones_found := n\<rparr>))\<rparr>)"
  using assms by (simp_all add: structured_failure_def new_result_def)

lemma structured_failure_sum:
  assumes "structured_failure r"
  shows "sum_values (rejected_reasons r) = None" "valid r = 0" "rejected r = 0" "candidates r = 0"
    "result_vias r = []" "rejected_reasons r \<noteq> []"
  using assms
  by (auto simp: structured_failure_def split: list.splits prod.splits reason_value.splits)

lemma counts_consistent_not_failure: "counts_consistent r \<Longrightarrow> \<not> structured_failure r"
  using structured_failure_sum(1) [of r] by (auto simp: counts_consistent_def)

lemma trace_fencing_outcome:
  assumes "generate_trace_fencing board config selected = Some (Inr r)"
  shows "structured_failure r \<or> counts_consistent r"
proof -
  let ?nets = "filter (\<lambda>name. name \<in> set (net_names config)) (board_nets board)"
  consider (no_nets) "?nets = []"
    | (no_fence_net) "?nets \<noteq> []" "\<not> (net_names config \<noteq> [] \<and> hd (net_names config) \<in> set ?nets)"
    | (no_tracks) "?nets \<noteq> []" "net_names config \<noteq> [] \<and> hd (net_names config) \<in> set ?nets"
        "selected = None \<or> length (the selected) = 0"
    | (run) "?nets \<noteq> []" "net_names config \<noteq> [] \<and> hd (net_names config) \<in> set ?nets"
        "\<not> (selected = None \<or> length (the selected) = 0)"
    by blast
  then show ?thesis
  proof cases
    case no_nets
    with assms have "r = new_result\<lparr>rejected_reasons := dict_set ''no_nets''
        (Message ''No matching nets found for fence vias'') (rejected_reasons new_result)\<rparr>"
      by (auto simp: generate_trace_fencing_def Let_def split: if_splits)
    then show ?thesis using message_result_failure(1) [of "''no_nets''"] by simp
  next
    case no_fence_net
    with assms have "r = new_result\<lparr>rejected_reasons := dict_set ''no_fence_net''
        (Message ''No net found for fence vias'') (rejected_reasons new_result)\<rparr>"
      by (auto simp: generate_trace_fencing_def Let_def split: if_splits)
    then show ?thesis using message_result_failure(1) [of "''no_fence_net''"] by simp
  next
    case no_tracks
    with assms have "r = new_result\<lparr>rejected_reasons := dict_set ''no_tracks''
        (Message ''No tracks selected. Select the traces you want to fence in KiCad first.'')
        (rejected_reasons new_result)\<rparr>"
      by (auto simp: generate_trace_fencing_def Let_def split: if_splits)
    then show ?thesis using message_result_failure(1) [of "''no_tracks''"] by simp
  next
    case run
    with assms obtain ps where
      pr: "process_results config (hd (net_names config))
             (check_positions_batch ps (via_diameter_nm config div 2) (set (net_names config))
                (clearance_nm config) (from_mm_um 127) (boundary_clearance_nm config)
                (board_snapshot board (board_corner_radius_nm config)) True None)
             (new_result\<lparr>tracks_found := length (the selected), candidates := length ps\<rparr>) = Inr r"
      by (auto simp: generate_trace_fencing_def Let_def split: option.splits sum.splits)
    from process_results_consistent [OF pr] show ?thesis
      by (simp add: new_result_def length_check_positions_batch)
  qed
qed

lemma via_stitching_outcome:
  assumes "generate_via_stitching board config sz st g = Some (Inr (r, g'))"
  shows "structured_failure r \<or> counts_consistent r"
proof (cases "mode config = FENCE_TRACE")
  case True
  with assms have "generate_trace_fencing board config st = Some (Inr r)"
    by (auto simp: generate_via_stitching_def split: option.splits sum.splits)
  then show ?thesis by (rule trace_fencing_outcome)
next
  case False
  let ?tn = "set (net_names config)"
  let ?nets = "filter (\<lambda>name. name \<in> ?tn) (board_nets board)"
  let ?in = "\<lambda>z. case zone_net z of Some name \<Rightarrow> name \<in> ?tn | None \<Rightarrow> False"
  let ?tz = "if selected_only config \<and> truthy_list sz then filter ?in (the sz)
             else filter ?in (board_zones board)"
  consider (no_nets) "?nets = []" | (no_zones) "?nets \<noteq> []" "?tz = []"
    | (run) "?nets \<noteq> []" "?tz \<noteq> []"
    by blast
  then show ?thesis
  proof cases
    case no_nets
    with assms False have "r = new_result\<lparr>rejected_reasons := dict_set ''no_nets''
        (Message ''No matching nets found'') (rejected_reasons new_result)\<rparr>"
      by (auto simp: generate_via_stitching_def Let_def split: if_splits)
    then show ?thesis using message_result_failure(1) [of "''no_nets''"] by simp
  next
    case no_zones
    with assms False have "r = new_result\<lparr>zones_found := length ?tz,
        rejected_reasons := dict_set ''no_zones'' (Message ''No zones found for target nets'')
          (rejected_reasons (new_result\<lparr>zones_found := length ?tz\<rparr>))\<rparr>"
      by (auto simp: generate_via_stitching_def Let_def split: if_splits)
    then show ?thesis using message_result_failure(2) [of "''no_zones''"] by simp
  next
    case run
    with assms False have "stitch_zones config ?nets ?tn
        (board_snapshot board (board_corner_radius_nm config)) ?tz
        (new_result\<lparr>zones_found := length ?tz\<rparr>, g) = Some (Inr (r, g'))"
      by (auto simp: generate_via_stitching_def Let_def split: if_splits)
    from stitch_zones_consistent [OF this new_result_consistent(1)] show ?thesis ..
  qed
qed

subsection \<open>A worked run\<close>

lemma py_sqrt_square:
  assumes "0 \<le> n" "n * n < 2 ^ 53"
  shows "py_sqrt (PyInt (n * n)) = of_int n"
proof -
  have "n \<le> n * n"
  proof (cases "n = 0")
    case False
    with assms(1) have "1 \<le> n" by simp
    from mult_left_mono [OF this assms(1)] show ?thesis by simp
  qed simp
  then have n: "\<bar>n\<bar> < 2 ^ 53" using assms by simp
  have "\<bar>n * n\<bar> < 2 ^ 53" using assms by (simp add: abs_mult_self_eq)
  then have "binary64 (of_int (n * n)) = of_int (n * n)" by (rule binary64_of_int)
  moreover have "sqrt (of_int (n * n)) = of_int n"
    using assms(1) by simp
  ultimately show ?thesis
    using binary64_of_int [OF n] by (simp add: py_sqrt_def del: of_int_mult)
qed

lemma triangle_roots:
  "py_sqrt (PyInt 36000000000000) = 6000000"
  "py_sqrt (PyInt 100000000000000) = 10000000"
  "py_sqrt (PyInt 64000000000000) = 8000000"
  using py_sqrt_square [of 6000000] py_sqrt_square [of 10000000] py_sqrt_square [of 8000000]
  by simp_all

lemma triangle_fence:
  "generate_fence_positions [(0, 0), (6000000, 0), (0, 8000000)] 20000000
     = Inr [(3000000, 0), (3000000, 4000000), (0, 4000000)]"
  by (simp add: generate_fence_positions_def fence_edge_positions_def triangle_roots
      upt_conv_Cons)

lemma triangle_run:
  "generate_via_stitching triangle_board fence_zone_config None None example_rng
     = Some (Inr (triangle_result, example_rng))"
proof -
  have cfg: "mode fence_zone_config = FENCE_ZONE" "net_names fence_zone_config = [''GND'']"
    "fence_spacing_nm fence_zone_config = 20000000" "via_diameter_nm fence_zone_config = 600000"
    "clearance_nm fence_zone_config = 200000" "boundary_clearance_nm fence_zone_config = 300000"
    "\<not> selected_only fence_zone_config"
    by (simp_all add: fence_zone_config_def example_config_def)
  have checks: "check_positions_batch [(3000000, 0), (3000000, 4000000), (0, 4000000)]
       300000 {''GND''} 200000 (from_mm_um 127) 300000
       (empty_board\<lparr>bd_vias := [(0, 4000000, 300000, ''SIG'')]\<rparr>) True
       (Some [(0, 0), (6000000, 0), (0, 8000000)])
     = [(3000000, 0, True, []), (3000000, 4000000, True, []), (0, 4000000, False, ''via'')]"
    by (simp add: check_positions_batch_def check_position_parallel_def empty_board_def
        from_mm_um_def)
  have polys: "get_zone_filled_polygons triangle_zone = [[(0, 0), (6000000, 0), (0, 8000000)]]"
    by (simp add: get_zone_filled_polygons_def triangle_zone_def)
  have poly: "stitch_polygon fence_zone_config ''GND'' {''GND''}
       (empty_board\<lparr>bd_vias := [(0, 4000000, 300000, ''SIG'')]\<rparr>)
       [(0, 0), (6000000, 0), (0, 8000000)] (new_result\<lparr>zones_found := Suc 0\<rparr>, example_rng)
     = Some (Inr (triangle_result, example_rng))"
    by (simp add: stitch_polygon_def polygon_candidates_def cfg triangle_fence checks
        count_rejection_def new_result_def triangle_result_def)
  show ?thesis
    by (simp add: generate_via_stitching_def cfg triangle_board_def polys poly Let_def
        triangle_zone_def [THEN arg_cong [where f = zone_net], simplified])
qed

subsection \<open>Large vias and the pre-filter\<close>

lemma large_via_run:
  "generate_via_stitching large_via_board fence_zone_config None None example_rng
     = Some (Inr (triangle_result, example_rng))"
proof -
  have cfg: "mode fence_zone_config = FENCE_ZONE" "net_names fence_zone_config = [''GND'']"
    "fence_spacing_nm fence_zone_config = 20000000" "via_diameter_nm fence_zone_config = 600000"
    "clearance_nm fence_zone_config = 200000" "boundary_clearance_nm fence_zone_config = 300000"
    "\<not> selected_only fence_zone_config"
    by (simp_all add: fence_zone_config_def example_config_def)
  have checks: "check_positions_batch [(3000000, 0), (3000000, 4000000), (0, 4000000)]
       300000 {''GND''} 200000 (from_mm_um 127) 300000
       (empty_board\<lparr>bd_vias := [(800000, 4000000, 2000000, ''SIG'')]\<rparr>) True
       (Some [(0, 0), (6000000, 0), (0, 8000000)])
     = [(3000000, 0, True, []), (3000000, 4000000, True, []), (0, 4000000, False, ''via'')]"
    by (simp add: check_positions_batch_def check_position_parallel_def empty_board_def
        from_mm_um_def)
  have polys: "get_zone_filled_polygons triangle_zone = [[(0, 0), (6000000, 0), (0, 8000000)]]"
    by (simp add: get_zone_filled_polygons_def triangle_zone_def)
  have poly: "stitch_polygon fence_zone_config ''GND'' {''GND''}
       (empty_board\<lparr>bd_vias := [(800000, 4000000, 2000000, ''SIG'')]\<rparr>)
       [(0, 0), (6000000, 0), (0, 8000000)] (new_result\<lparr>zones_found := Suc 0\<rparr>, example_rng)
     = Some (Inr (triangle_result, example_rng))"
    by (simp add: stitch_polygon_def polygon_candidates_def cfg triangle_fence checks
        count_rejection_def new_result_def triangle_result_def)
  show ?thesis
    by (simp add: generate_via_stitching_def cfg large_via_board_def polys poly Let_def
        triangle_zone_def [THEN arg_cong [where f = zone_net], simplified])
qed

text \<open>
  Claim C2. The claim is what the validator is meant to do, and does for every via inside
  the pre-filter window (\<open>via_clearance_inside_window\<close>). The window allows 1.5 mm for the
  existing via instead of its radius, so a larger via is skipped before the distance is
  looked at. With a SIG via of 4 mm at the origin, a candidate of 0.6 mm and a clearance
  of 0.2 mm, the candidate one nanometre inside the required 2.5 mm is accepted, and so is
  one at 2.000001 mm, whose copper overlaps the via's; at 2.0 mm, inside the window, the
  candidate is rejected. In a fence run of \<^verbatim>\<open>generate_via_stitching\<close> on the triangle board
  with such a via, the second accepted via lies 2.2 mm from the centre of the 4 mm via.
\<close>

theorem via_prefilter_skips_large_via:
  "check_position_parallel 2499999 0 300000 {''GND''} 200000 (from_mm_um 127) 300000
       (empty_board\<lparr>bd_vias := [(0, 0, 2000000, ''SIG'')]\<rparr>) True None = (2499999, 0, True, [])
   \<and> (2499999 - 0)\<^sup>2 + (0 - 0)\<^sup>2 = (300000 + 2000000 + 200000 - (1::int))\<^sup>2
   \<and> ''SIG'' \<notin> {''GND''}
   \<and> check_position_parallel 2000001 0 300000 {''GND''} 200000 (from_mm_um 127) 300000
       (empty_board\<lparr>bd_vias := [(0, 0, 2000000, ''SIG'')]\<rparr>) True None = (2000001, 0, True, [])
   \<and> (2000001::int) < 300000 + 2000000
   \<and> check_position_parallel 2000000 0 300000 {''GND''} 200000 (from_mm_um 127) 300000
       (empty_board\<lparr>bd_vias := [(0, 0, 2000000, ''SIG'')]\<rparr>) True None = (2000000, 0, False, ''via'')
   \<and> generate_via_stitching large_via_board fence_zone_config None None example_rng
       = Some (Inr (triangle_result, example_rng))
   \<and> map via_position (result_vias triangle_result) = [(3000000, 0), (3000000, 4000000)]
   \<and> (3000000 - 800000)\<^sup>2 + (4000000 - 4000000)\<^sup>2 < (300000 + 2000000 + (0::int))\<^sup>2"
  by (simp add: check_position_parallel_def empty_board_def from_mm_um_def large_via_run
      triangle_result_def make_via_def)

subsection \<open>The result invariant\<close>

text \<open>
  Claim C1, as amended. For every stitching run that returns a result, in any mode, on
  any board and configuration, \<open>valid + rejected = candidates\<close>. The values of
  \<open>rejected_reasons\<close> are counts that sum to \<open>rejected\<close>, unless the run stopped at a
  structured failure (no matching net, no fence net, no zone, no selected track): the map
  then holds one message in place of counts, its values have no sum, and \<open>rejected\<close> is
  zero.
\<close>

theorem stitching_result_counts:
  assumes "generate_via_stitching board config selected_zones selected_tracks g = Some (Inr (r, g'))"
  shows "valid r + rejected r = candidates r
       \<and> (if structured_failure r
           then sum_values (rejected_reasons r) = None \<and> rejected r = 0
           else sum_values (rejected_reasons r) = Some (int (rejected r)))"
proof (cases "structured_failure r")
  case True
  from structured_failure_sum [OF this] True show ?thesis by simp
next
  case False
  with via_stitching_outcome [OF assms] have "counts_consistent r" by simp
  with False show ?thesis by (simp add: counts_consistent_def)
qed

theorem stitching_result_counts_witness:
  "generate_via_stitching triangle_board fence_zone_config None None example_rng
     = Some (Inr (triangle_result, example_rng))
   \<and> valid triangle_result + rejected triangle_result = candidates triangle_result
   \<and> valid triangle_result = 2 \<and> rejected triangle_result = 1
   \<and> sum_values (rejected_reasons triangle_result) = Some 1"
  using stitching_result_counts [OF triangle_run]
  by (simp add: triangle_run triangle_result_def structured_failure_def)

text \<open>
  On a board without nets the run returns at once with the reason map
  \<open>{no_nets: "No matching nets found"}\<close>: the one value is a string, \<^verbatim>\<open>sum\<close> over the
  values raises, and nothing equals \<open>rejected = 0\<close>.
\<close>

theorem stitching_result_counts_counterexample:
  "generate_via_stitching bare_board example_config None None example_rng
     = Some (Inr (new_result\<lparr>rejected_reasons := [(''no_nets'', Message ''No matching nets found'')]\<rparr>,
                  example_rng))
   \<and> sum_values [(''no_nets'', Message ''No matching nets found'')] = None
   \<and> rejected (new_result\<lparr>rejected_reasons := [(''no_nets'', Message ''No matching nets found'')]\<rparr>) = 0"
  by (simp add: generate_via_stitching_def bare_board_def example_config_def new_result_def)

subsection \<open>Trace fencing without a selection\<close>

text \<open>
  Claim C3. In trace fencing, when the selection is \<^verbatim>\<open>None\<close> or empty, the run returns a
  result (no exception, it terminates) with no valid via, no candidate, an empty via list
  and no track taken up, and its reason map holds one message, under \<open>no_tracks\<close> or, when
  the net lookup fails first, under \<open>no_nets\<close> or \<open>no_fence_net\<close>. The entry point
  \<^verbatim>\<open>generate_via_stitching\<close> in mode \<open>FENCE_TRACE\<close> returns that same result.
\<close>

theorem trace_fencing_requires_selection:
  assumes "selected_tracks = None \<or> selected_tracks = Some []"
  shows "\<exists>r. generate_trace_fencing board config selected_tracks = Some (Inr r)
           \<and> (mode config = FENCE_TRACE \<longrightarrow>
                generate_via_stitching board config selected_zones selected_tracks g = Some (Inr (r, g)))
           \<and> valid r = 0 \<and> candidates r = 0 \<and> result_vias r = [] \<and> tracks_found r = 0
           \<and> (\<exists>k m. rejected_reasons r = [(k, Message m)]
                  \<and> k \<in> {''no_nets'', ''no_fence_net'', ''no_tracks''})"
proof -
  let ?nets = "filter (\<lambda>name. name \<in> set (net_names config)) (board_nets board)"
  let ?r = "\<lambda>k m. new_result\<lparr>rejected_reasons := dict_set k (Message m) (rejected_reasons new_result)\<rparr>"
  have fields: "valid (?r k m) = 0 \<and> candidates (?r k m) = 0 \<and> result_vias (?r k m) = []
      \<and> tracks_found (?r k m) = 0 \<and> rejected_reasons (?r k m) = [(k, Message m)]" for k m
    by (simp add: new_result_def)
  have "\<exists>k m. generate_trace_fencing board config selected_tracks = Some (Inr (?r k m))
           \<and> k \<in> {''no_nets'', ''no_fence_net'', ''no_tracks''}"
  proof (cases "?nets = []")
    case True
    then have "generate_trace_fencing board config selected_tracks = Some (Inr (?r ''no_nets''
        ''No matching nets found for fence vias''))"
      by (simp add: generate_trace_fencing_def Let_def)
    then show ?thesis by blast
  next
    case nets: False
    show ?thesis
    proof (cases "net_names config \<noteq> [] \<and> hd (net_names config) \<in> set ?nets")
      case False
      with nets have "generate_trace_fencing board config selected_tracks = Some (Inr (?r ''no_fence_net''
          ''No net found for fence vias''))"
        by (auto simp: generate_trace_fencing_def Let_def split: if_splits)
      then show ?thesis by blast
    next
      case True
      with nets assms have "generate_trace_fencing board config selected_tracks = Some (Inr (?r ''no_tracks''
          ''No tracks selected. Select the traces you want to fence in KiCad first.''))"
        by (auto simp: generate_trace_fencing_def Let_def split: if_splits)
      then show ?thesis by blast
    qed
  qed
  then obtain k m where run: "generate_trace_fencing board config selected_tracks = Some (Inr (?r k m))"
    and k: "k \<in> {''no_nets'', ''no_fence_net'', ''no_tracks''}"
    by blast
  have "mode config = FENCE_TRACE \<longrightarrow>
      generate_via_stitching board config selected_zones selected_tracks g = Some (Inr (?r k m, g))"
    using run by (simp add: generate_via_stitching_def)
  with run k fields [of k m] show ?thesis by blast
qed

theorem trace_fencing_requires_selection_witness:
  "generate_trace_fencing gnd_board example_config None
     = Some (Inr (new_result\<lparr>rejected_reasons := [(''no_tracks'',
          Message ''No tracks selected. Select the traces you want to fence in KiCad first.'')]\<rparr>))
   \<and> generate_trace_fencing gnd_board example_config (Some [])
     = Some (Inr (new_result\<lparr>rejected_reasons := [(''no_tracks'',
          Message ''No tracks selected. Select the traces you want to fence in KiCad first.'')]\<rparr>))"
proof -
  have "None = None \<or> None = Some ([] :: kipy_track list)" by simp
  from trace_fencing_requires_selection [OF this, of gnd_board example_config None example_rng]
  show ?thesis
    by (simp add: generate_trace_fencing_def gnd_board_def example_config_def new_result_def)
qed

subsection \<open>Offset path\<close>













subsection \<open>Track chainer\<close>

lemma used_set_update:
  "j < length used \<Longrightarrow> used_set (used[j := True]) = insert j (used_set used)"
  by (auto simp: used_set_def nth_list_update)

lemma used_set_bounded: "used_set used \<subseteq> {..<length used}"
  by (auto simp: used_set_def)

lemma card_used_set_le: "card (used_set used) \<le> length used"
  using card_mono [OF _ used_set_bounded, of used] by simp

lemma finite_used_set: "finite (used_set used)"
  using finite_subset [OF used_set_bounded] by blast

lemma chain_step_owned_cases:
  assumes "j < length used"
  shows "chain_step_owned segs j ((path, owners), used, c) = ((path, owners), used, c)
       \<or> (\<not> used ! j \<and> (\<exists>path'. chain_step_owned segs j ((path, owners), used, c)
              = ((path', owners @ [j]), used[j := True], True)
            \<and> length path' = length path + (length (segs ! j) - 1)))"
  by (simp add: chain_step_owned_def Let_def)

lemma chain_step_erase:
  "(case chain_step_owned segs j ((path, owners), used, c) of ((p, ow), u, ch) \<Rightarrow> (p, u, ch))
     = chain_step segs j (path, used, c)"
  by (simp add: chain_step_owned_def chain_step_def Let_def)

lemma fold_chain_step_erase:
  "(case fold (chain_step_owned segs) js ((path, owners), used, c) of ((p, ow), u, ch) \<Rightarrow> (p, u, ch))
     = fold (chain_step segs) js (path, used, c)"
proof (induction js arbitrary: path owners used c)
  case Nil
  then show ?case by simp
next
  case (Cons j js)
  obtain p ow u ch where st: "chain_step_owned segs j ((path, owners), used, c) = ((p, ow), u, ch)"
    by (metis prod.exhaust)
  with chain_step_erase [of segs j path owners used c]
  have "chain_step segs j (path, used, c) = (p, u, ch)" by simp
  with st Cons.IH [of p ow u ch] show ?case by simp
qed

lemma fold_chain_step_owned:
  assumes "\<forall>j \<in> set js. j < length used"
  shows "\<exists>path' new used'.
      fold (chain_step_owned segs) js ((path, owners), used, c)
        = ((path', owners @ new), used', c \<or> new \<noteq> [])
    \<and> length used' = length used \<and> distinct new \<and> set new \<inter> used_set used = {}
    \<and> used_set used' = used_set used \<union> set new
    \<and> length path' = length path + segment_edges segs new"
  using assms
proof (induction js arbitrary: path owners used c)
  case Nil
  show ?case
    by (rule exI [of _ path], rule exI [of _ "[]"], rule exI [of _ used])
       (simp add: segment_edges_def)
next
  case (Cons j js)
  from Cons.prems have j: "j < length used" and js: "\<forall>k \<in> set js. k < length used" by simp_all
  from chain_step_owned_cases [OF j, of segs path owners c]
  show ?case
  proof
    assume skip: "chain_step_owned segs j ((path, owners), used, c) = ((path, owners), used, c)"
    from Cons.IH [OF js, of path owners c] skip show ?thesis by simp
  next
    assume "\<not> used ! j \<and> (\<exists>path'. chain_step_owned segs j ((path, owners), used, c)
              = ((path', owners @ [j]), used[j := True], True)
            \<and> length path' = length path + (length (segs ! j) - 1))"
    then obtain path1 where unused: "\<not> used ! j"
      and step: "chain_step_owned segs j ((path, owners), used, c)
                   = ((path1, owners @ [j]), used[j := True], True)"
      and len1: "length path1 = length path + (length (segs ! j) - 1)"
      by blast
    have "\<forall>k \<in> set js. k < length (used[j := True])" using js by simp
    from Cons.IH [OF this, of path1 "owners @ [j]" True]
    obtain path' new used' where
      fold: "fold (chain_step_owned segs) js ((path1, owners @ [j]), used[j := True], True)
               = ((path', (owners @ [j]) @ new), used', True \<or> new \<noteq> [])"
      and facts: "length used' = length (used[j := True])" "distinct new"
        "set new \<inter> used_set (used[j := True]) = {}"
        "used_set used' = used_set (used[j := True]) \<union> set new"
        "length path' = length path1 + segment_edges segs new"
      by blast
    have jnew: "j \<notin> set new" using facts(3) used_set_update [OF j] by auto
    have jused: "j \<notin> used_set used" using unused by (simp add: used_set_def)
    show ?thesis
      apply (rule exI [of _ path'], rule exI [of _ "j # new"], rule exI [of _ used'])
      using fold step facts jnew jused len1 used_set_update [OF j]
      by (auto simp: segment_edges_def)
  qed
qed

lemma chain_grow_owned_result:
  assumes "length used = length segs"
  shows "\<exists>path' new used'.
      chain_grow_owned segs (path, owners) used = Some ((path', owners @ new), used')
    \<and> chain_grow segs path used = Some (path', used')
    \<and> length used' = length used \<and> distinct new \<and> set new \<inter> used_set used = {}
    \<and> used_set used' = used_set used \<union> set new
    \<and> length path' = length path + segment_edges segs new"
  using assms
proof (induction "length used - card (used_set used)" arbitrary: path owners used rule: less_induct)
  case less
  have "\<forall>j \<in> set [0..<length segs]. j < length used" using less.prems by simp
  from fold_chain_step_owned [OF this, of segs path owners False]
  obtain path1 new1 used1 where
    pass: "fold (chain_step_owned segs) [0..<length segs] ((path, owners), used, False)
             = ((path1, owners @ new1), used1, new1 \<noteq> [])"
    and facts1: "length used1 = length used" "distinct new1" "set new1 \<inter> used_set used = {}"
      "used_set used1 = used_set used \<union> set new1"
      "length path1 = length path + segment_edges segs new1"
    by auto
  from fold_chain_step_erase [of segs "[0..<length segs]" path owners used False] pass
  have pass': "fold (chain_step segs) [0..<length segs] (path, used, False) = (path1, used1, new1 \<noteq> [])"
    by simp
  show ?case
  proof (cases "new1 = []")
    case True
    have "chain_grow_owned segs (path, owners) used = Some ((path1, owners @ []), used1)"
      using pass True by (subst chain_grow_owned.simps) simp
    moreover have "chain_grow segs path used = Some (path1, used1)"
      using pass' True by (subst chain_grow.simps) simp
    ultimately show ?thesis
      using facts1 True
      by (intro exI [of _ path1] exI [of _ "[]"] exI [of _ used1]) (simp add: segment_edges_def)
  next
    case False
    have "card (used_set used1) = card (used_set used) + card (set new1)"
      unfolding facts1(4) using facts1(3) finite_used_set [of used]
      by (intro card_Un_disjoint) auto
    moreover have "0 < card (set new1)" using False by (simp add: card_gt_0_iff)
    moreover have "card (used_set used1) \<le> length used"
      using card_used_set_le [of used1] facts1(1) by simp
    ultimately have dec: "length used1 - card (used_set used1) < length used - card (used_set used)"
      using facts1(1) by linarith
    have len1: "length used1 = length segs" using facts1(1) less.prems by simp
    from less.hyps [OF dec len1, of path1 "owners @ new1"]
    obtain path2 new2 used2 where
      rec: "chain_grow_owned segs (path1, owners @ new1) used1
              = Some ((path2, (owners @ new1) @ new2), used2)"
        "chain_grow segs path1 used1 = Some (path2, used2)"
      and facts2: "length used2 = length used1" "distinct new2" "set new2 \<inter> used_set used1 = {}"
        "used_set used2 = used_set used1 \<union> set new2"
        "length path2 = length path1 + segment_edges segs new2"
      by blast
    have "chain_grow_owned segs (path, owners) used = Some ((path2, owners @ (new1 @ new2)), used2)"
      using pass False rec(1) by (subst chain_grow_owned.simps) simp
    moreover have "chain_grow segs path used = Some (path2, used2)"
      using pass' False rec(2) by (subst chain_grow.simps) simp
    moreover have "distinct (new1 @ new2)"
      using facts1(2) facts2(2,3) facts1(4) by auto
    moreover have "set (new1 @ new2) \<inter> used_set used = {}"
      using facts1(3,4) facts2(3) by auto
    moreover have "used_set used2 = used_set used \<union> set (new1 @ new2)"
      using facts1(4) facts2(4) by auto
    moreover have "length path2 = length path + segment_edges segs (new1 @ new2)"
      using facts1(5) facts2(5) by (simp add: segment_edges_def)
    ultimately show ?thesis
      using facts1(1) facts2(1)
      by (intro exI [of _ path2] exI [of _ "new1 @ new2"] exI [of _ used2]) simp
  qed
qed

lemma track_segment_nonempty: "track_segment t \<noteq> []"
  by (cases t) (simp_all add: Let_def)

lemma chain_paths_loop_owned_result:
  assumes "length used = length segs" "\<forall>i \<in> set idxs. i < length segs" "\<forall>s \<in> set segs. s \<noteq> []"
    and "distinct (concat (map snd paths))" "set (concat (map snd paths)) = used_set used"
    and "\<forall>(p, ow) \<in> set paths. ow \<noteq> [] \<and> length p = 1 + segment_edges segs ow"
  shows "\<exists>owned used'.
      chain_paths_loop_owned segs idxs paths used = Some owned
    \<and> chain_paths_loop segs idxs (map fst paths) used = Some (map fst owned)
    \<and> distinct (concat (map snd owned)) \<and> set (concat (map snd owned)) = used_set used'
    \<and> length used' = length segs \<and> used_set used \<union> set idxs \<subseteq> used_set used'
    \<and> (\<forall>(p, ow) \<in> set owned. ow \<noteq> [] \<and> length p = 1 + segment_edges segs ow)"
  using assms
proof (induction idxs arbitrary: paths used)
  case Nil
  then show ?case
    by (intro exI [of _ paths] exI [of _ used]) simp
next
  case (Cons i idxs)
  from Cons.prems have i: "i < length used" "i < length segs"
    and rest: "\<forall>k \<in> set idxs. k < length segs" by simp_all
  show ?case
  proof (cases "used ! i")
    case True
    from Cons.IH [OF Cons.prems(1) rest Cons.prems(3-6)]
    obtain owned used' where
      r: "chain_paths_loop_owned segs idxs paths used = Some owned"
         "chain_paths_loop segs idxs (map fst paths) used = Some (map fst owned)"
         "distinct (concat (map snd owned))" "set (concat (map snd owned)) = used_set used'"
         "length used' = length segs" "used_set used \<union> set idxs \<subseteq> used_set used'"
         "\<forall>(p, ow) \<in> set owned. ow \<noteq> [] \<and> length p = 1 + segment_edges segs ow"
      by blast
    have "i \<in> used_set used" using True i by (simp add: used_set_def)
    with r True show ?thesis
      by (intro exI [of _ owned] exI [of _ used']) auto
  next
    case False
    have lenu: "length (used[i := True]) = length segs" using Cons.prems(1) by simp
    from chain_grow_owned_result [OF lenu, of "segs ! i" "[i]"]
    obtain path' new used1 where
      g: "chain_grow_owned segs (segs ! i, [i]) (used[i := True]) = Some ((path', [i] @ new), used1)"
         "chain_grow segs (segs ! i) (used[i := True]) = Some (path', used1)"
         "length used1 = length (used[i := True])" "distinct new"
         "set new \<inter> used_set (used[i := True]) = {}"
         "used_set used1 = used_set (used[i := True]) \<union> set new"
         "length path' = length (segs ! i) + segment_edges segs new"
      by blast
    have us: "used_set (used[i := True]) = insert i (used_set used)"
      using used_set_update [OF i(1)] .
    have inotin: "i \<notin> used_set used" using False by (simp add: used_set_def)
    have "segs ! i \<noteq> []" using Cons.prems(3) i(2) by simp
    then have "1 \<le> length (segs ! i)" by (simp add: Suc_le_eq)
    then have acc: "length path' = 1 + segment_edges segs (i # new)"
      using g(7) by (simp add: segment_edges_def)
    let ?paths = "paths @ [(path', i # new)]"
    have d: "distinct (concat (map snd ?paths))"
      using Cons.prems(4,5) g(4,5) us inotin by auto
    have s: "set (concat (map snd ?paths)) = used_set used1"
      using Cons.prems(5) g(6) us by auto
    have a: "\<forall>(p, ow) \<in> set ?paths. ow \<noteq> [] \<and> length p = 1 + segment_edges segs ow"
      using Cons.prems(6) acc by auto
    have l1: "length used1 = length segs" using g(3) lenu by simp
    from Cons.IH [OF l1 rest Cons.prems(3) d s a]
    obtain owned used' where
      r: "chain_paths_loop_owned segs idxs ?paths used1 = Some owned"
         "chain_paths_loop segs idxs (map fst ?paths) used1 = Some (map fst owned)"
         "distinct (concat (map snd owned))" "set (concat (map snd owned)) = used_set used'"
         "length used' = length segs" "used_set used1 \<union> set idxs \<subseteq> used_set used'"
         "\<forall>(p, ow) \<in> set owned. ow \<noteq> [] \<and> length p = 1 + segment_edges segs ow"
      by blast
    have "used_set used \<union> set (i # idxs) \<subseteq> used_set used'"
      using r(6) g(6) us by auto
    with r g(1,2) False show ?thesis
      by (intro exI [of _ owned] exI [of _ used']) simp
  qed
qed

lemma chain_tracks_owned_result:
  "\<exists>owned. chain_tracks_owned tracks = Some owned
     \<and> chain_tracks_into_paths tracks = Some (map fst owned)
     \<and> distinct (concat (map snd owned))
     \<and> set (concat (map snd owned)) = {0..<length tracks}
     \<and> (\<forall>(path, owners) \<in> set owned. owners \<noteq> []
           \<and> length path = 1 + segment_edges (map track_segment tracks) owners)"
proof (cases "tracks = []")
  case True
  then show ?thesis
    by (simp add: chain_tracks_owned_def chain_tracks_into_paths_def)
next
  case False
  let ?segs = "map track_segment tracks"
  let ?used = "replicate (length ?segs) False"
  have e: "used_set (replicate n False) = {}" for n by (simp add: used_set_def)
  have "\<exists>owned used'.
      chain_paths_loop_owned ?segs [0..<length ?segs] [] ?used = Some owned
    \<and> chain_paths_loop ?segs [0..<length ?segs] (map fst []) ?used = Some (map fst owned)
    \<and> distinct (concat (map snd owned)) \<and> set (concat (map snd owned)) = used_set used'
    \<and> length used' = length ?segs \<and> used_set ?used \<union> set [0..<length ?segs] \<subseteq> used_set used'
    \<and> (\<forall>(p, ow) \<in> set owned. ow \<noteq> [] \<and> length p = 1 + segment_edges ?segs ow)"
    using chain_paths_loop_owned_result [of ?used ?segs "[0..<length ?segs]" "[]"]
    by (simp add: e track_segment_nonempty)
  then obtain owned used' where
    r: "chain_paths_loop_owned ?segs [0..<length ?segs] [] ?used = Some owned"
       "chain_paths_loop ?segs [0..<length ?segs] [] ?used = Some (map fst owned)"
       "distinct (concat (map snd owned))" "set (concat (map snd owned)) = used_set used'"
       "length used' = length ?segs" "set [0..<length ?segs] \<subseteq> used_set used'"
       "\<forall>(p, ow) \<in> set owned. ow \<noteq> [] \<and> length p = 1 + segment_edges ?segs ow"
    by auto
  have "used_set used' = {0..<length tracks}"
    using r(5,6) used_set_bounded [of used'] by auto
  with r False show ?thesis
    by (intro exI [of _ owned]) (simp add: chain_tracks_owned_def chain_tracks_into_paths_def Let_def)
qed

lemma example_chain:
  "chain_tracks_owned example_tracks
     = Some [([(0, 0), (1000000, 0), (2000000, 0)], [0, 2]),
             ([(5000000, 5000000), (6000000, 5000000)], [1])]"
proof -
  let ?segs = "[[(0, 0), (1000000, 0)], [(5000000, 5000000), (6000000, 5000000)],
                [(2000000, 0), (1000000, 0)]] :: point list list"
  have up: "[0..<length ?segs] = [0, 1, 2]" by (simp add: upt_conv_Cons)
  have g0: "chain_grow_owned ?segs ([(0, 0), (1000000, 0)], [0]) [True, False, False]
      = Some (([(0, 0), (1000000, 0), (2000000, 0)], [0, 2]), [True, False, True])"
    apply (subst chain_grow_owned.simps)
    apply (simp only: up)
    apply (simp add: chain_step_owned_def points_close_def from_mm_um_def)
    apply (subst chain_grow_owned.simps)
    apply (simp only: up)
    apply (simp add: chain_step_owned_def points_close_def from_mm_um_def)
    done
  have g1: "chain_grow_owned ?segs ([(5000000, 5000000), (6000000, 5000000)], [Suc 0]) [True, True, True]
      = Some (([(5000000, 5000000), (6000000, 5000000)], [Suc 0]), [True, True, True])"
    apply (subst chain_grow_owned.simps)
    apply (simp only: up)
    apply (simp add: chain_step_owned_def)
    done
  show ?thesis
    by (simp add: chain_tracks_owned_def example_tracks_def upt_conv_Cons g0 g1 Let_def)
qed

text \<open>
  Claim C7. For every list of tracks the chainer returns (every \<^verbatim>\<open>while changed\<close> loop
  ends), and its polylines partition the input segments: the instrumented run returns the
  same polylines, each with the list of segments it consumed; no index occurs twice
  in these lists and every index of the input occurs in one. Each polyline is made of
  its segments: it has one point more than they have edges.
\<close>

theorem chain_partitions_segments:
  "\<exists>owned. chain_tracks_owned tracks = Some owned
     \<and> chain_tracks_into_paths tracks = Some (map fst owned)
     \<and> distinct (concat (map snd owned))
     \<and> set (concat (map snd owned)) = {0..<length tracks}
     \<and> (\<forall>(path, owners) \<in> set owned. owners \<noteq> []
           \<and> length path = 1 + segment_edges (map track_segment tracks) owners)"
  by (rule chain_tracks_owned_result)

theorem chain_partitions_segments_witness:
  "chain_tracks_into_paths example_tracks
     = Some [[(0, 0), (1000000, 0), (2000000, 0)], [(5000000, 5000000), (6000000, 5000000)]]
   \<and> chain_tracks_owned example_tracks
     = Some [([(0, 0), (1000000, 0), (2000000, 0)], [0, 2]),
             ([(5000000, 5000000), (6000000, 5000000)], [1])]
   \<and> distinct (concat [[0, 2], [1 :: nat]])
   \<and> set (concat [[0, 2], [1 :: nat]]) = {0..<length example_tracks}
   \<and> length [(0, 0), (1000000, 0), (2000000, 0) :: point]
       = 1 + segment_edges (map track_segment example_tracks) [0, 2]"
proof -
  from chain_partitions_segments [of example_tracks]
  obtain owned where "chain_tracks_owned example_tracks = Some owned"
    and "chain_tracks_into_paths example_tracks = Some (map fst owned)"
    and "distinct (concat (map snd owned))"
    and "set (concat (map snd owned)) = {0..<length example_tracks}"
    by blast
  moreover have "length example_tracks = 3" by (simp add: example_tracks_def)
  moreover have "segment_edges (map track_segment example_tracks) [0, 2] = 2"
    by (simp add: segment_edges_def example_tracks_def)
  ultimately show ?thesis by (auto simp: example_chain)
qed

end
